theory Spec2Isabelle
  imports Complex_Main
begin

section \<open>Nikon Remote Focus Accessory driver (nikonrfa/rfa.py)\<close>

text \<open>
  The class \<^verbatim>\<open>NikonRFA\<close> talks to the focus drive over a serial line. The model below
  follows the methods of the class one by one. The attributes of the object are the
  fields of the record \<open>rfa\<close>, the pyserial object is the record \<open>serial\<close>, every
  exception is a value of \<open>error\<close>, and a method is a function from the state before the
  call to its outcome (the returned value or the exception raised) and the state after.
\<close>

subsection \<open>Python values and exceptions\<close>

datatype error =
    AttributeError | TypeError | ValueError | OverflowError | ZeroDivisionError
  | UnicodeDecodeError | UnicodeEncodeError | PortNotOpenError | SerialException

text \<open>
  A Python float is an IEEE binary64 number. The finite ones are kept as the rational
  they denote; the sign of zero is not kept (no operation of the driver tells 0.0 from
  -0.0: they compare equal, and a division by either raises).
\<close>

datatype pyfloat = Finite rat | PosInf | NegInf | NaN

datatype pyval = PNone | PBool bool | PInt int | PFloat pyfloat | PStr string

datatype level = DEBUG | INFO | WARNING | ERROR

text \<open>A log record: the level, the message (or its format string) and the format arguments.\<close>

type_synonym log_record = "level \<times> string \<times> pyval list"

subsection \<open>Float arithmetic\<close>

text \<open>
  The result of an arithmetic operation on floats is the exact result rounded to the
  nearest binary64 number, ties to the even significand: 53 bits, the exponent of the
  last bit at least -1074, and infinity from \<open>2 ^ 1024\<close> on.
\<close>

definition pow2 :: "int \<Rightarrow> rat" where
  "pow2 k = (if 0 \<le> k then 2 ^ nat k else 1 / 2 ^ nat (- k))"

fun bit_length :: "nat \<Rightarrow> nat" where
  "bit_length n = (if n = 0 then 0 else Suc (bit_length (n div 2)))"

declare bit_length.simps [simp del]

text \<open>
  The exponent \<open>e\<close> with \<open>2 ^ e \<le> x < 2 ^ (e + 1)\<close>, for a positive \<open>x\<close>: from the bits of
  the integer part when \<open>1 \<le> x\<close>, and of the inverse otherwise.
\<close>

definition ilog2 :: "rat \<Rightarrow> int" where
  "ilog2 x =
     (if 1 \<le> x then int (bit_length (nat \<lfloor>x\<rfloor>)) - 1
      else - int (bit_length (nat \<lceil>1 / x\<rceil> - 1)))"

definition round_half_even :: "rat \<Rightarrow> int" where
  "round_half_even x =
     (let f = \<lfloor>x\<rfloor>; d = x - of_int f
      in if d < 1 / 2 then f
         else if 1 / 2 < d then f + 1
         else if even f then f else f + 1)"

definition fl_round :: "rat \<Rightarrow> pyfloat" where
  "fl_round x =
     (if x = 0 then Finite 0
      else
        let e = max (ilog2 \<bar>x\<bar>) (- 1022);
            q = pow2 (e - 52);
            r = of_int (round_half_even (x / q)) * q
        in if 2 ^ 1024 \<le> \<bar>r\<bar> then (if 0 < x then PosInf else NegInf) else Finite r)"

text \<open>\<^verbatim>\<open>float(i)\<close> for an int: an int too large for a float raises.\<close>

definition float_of_int :: "int \<Rightarrow> error + pyfloat" where
  "float_of_int i =
     (case fl_round (of_int i) of
        Finite r \<Rightarrow> Inr (Finite r)
      | _ \<Rightarrow> Inl OverflowError)"

text \<open>\<^verbatim>\<open>a * b\<close> on floats. An overflow gives an infinity, no exception.\<close>

fun float_mul :: "pyfloat \<Rightarrow> pyfloat \<Rightarrow> pyfloat" where
  "float_mul NaN b = NaN"
| "float_mul a NaN = NaN"
| "float_mul (Finite a) (Finite b) = fl_round (a * b)"
| "float_mul (Finite a) PosInf = (if a = 0 then NaN else if 0 < a then PosInf else NegInf)"
| "float_mul (Finite a) NegInf = (if a = 0 then NaN else if 0 < a then NegInf else PosInf)"
| "float_mul PosInf (Finite b) = (if b = 0 then NaN else if 0 < b then PosInf else NegInf)"
| "float_mul NegInf (Finite b) = (if b = 0 then NaN else if 0 < b then NegInf else PosInf)"
| "float_mul PosInf PosInf = PosInf"
| "float_mul PosInf NegInf = NegInf"
| "float_mul NegInf PosInf = NegInf"
| "float_mul NegInf NegInf = PosInf"

text \<open>\<^verbatim>\<open>a / b\<close> on floats: a zero divisor raises.\<close>

fun float_div :: "pyfloat \<Rightarrow> pyfloat \<Rightarrow> error + pyfloat" where
  "float_div a (Finite b) =
     (if b = 0 then Inl ZeroDivisionError
      else (case a of
              Finite x \<Rightarrow> Inr (fl_round (x / b))
            | PosInf \<Rightarrow> Inr (if 0 < b then PosInf else NegInf)
            | NegInf \<Rightarrow> Inr (if 0 < b then NegInf else PosInf)
            | NaN \<Rightarrow> Inr NaN))"
| "float_div a NaN = Inr NaN"
| "float_div (Finite x) b = Inr (Finite 0)"
| "float_div a b = Inr NaN"

text \<open>\<^verbatim>\<open>round(x)\<close> for a float: the nearest int, ties to the even one.\<close>

fun py_round :: "pyfloat \<Rightarrow> error + int" where
  "py_round (Finite x) = Inr (round_half_even x)"
| "py_round NaN = Inl ValueError"
| "py_round x = Inl OverflowError"

text \<open>\<^verbatim>\<open>um * units\<close> where \<open>units\<close> is a float: an int or bool operand is made a float first.\<close>

fun py_mul_float :: "pyval \<Rightarrow> pyfloat \<Rightarrow> error + pyfloat" where
  "py_mul_float (PFloat a) u = Inr (float_mul a u)"
| "py_mul_float (PInt i) u =
     (case float_of_int i of Inl e \<Rightarrow> Inl e | Inr a \<Rightarrow> Inr (float_mul a u))"
| "py_mul_float (PBool b) u = Inr (float_mul (Finite (if b then 1 else 0)) u)"
| "py_mul_float v u = Inl TypeError"

text \<open>\<^verbatim>\<open>i / units\<close> for an int \<open>i\<close> and a float.\<close>

definition py_truediv_float :: "int \<Rightarrow> pyfloat \<Rightarrow> error + pyfloat" where
  "py_truediv_float i u =
     (case float_of_int i of Inl e \<Rightarrow> Inl e | Inr a \<Rightarrow> float_div a u)"

text \<open>\<^verbatim>\<open>a == b\<close>: numbers are compared by value, whatever their types.\<close>

fun num_of :: "pyval \<Rightarrow> pyfloat option" where
  "num_of (PInt i) = Some (Finite (of_int i))"
| "num_of (PBool b) = Some (Finite (if b then 1 else 0))"
| "num_of (PFloat f) = Some f"
| "num_of v = None"

definition py_eq :: "pyval \<Rightarrow> pyval \<Rightarrow> bool" where
  "py_eq a b =
     (case (num_of a, num_of b) of
        (Some x, Some y) \<Rightarrow> x \<noteq> NaN \<and> x = y
      | (None, None) \<Rightarrow> a = b
      | _ \<Rightarrow> False)"

subsection \<open>Strings: \<^verbatim>\<open>int(str)\<close>, \<^verbatim>\<open>'{}'.format(int)\<close>, \<^verbatim>\<open>str.split(' ')\<close>, slices\<close>

definition CR :: char where
  "CR = CHR 0x0D"

definition is_ascii :: "char \<Rightarrow> bool" where
  "is_ascii c = (of_char c < (128::nat))"

text \<open>
  A str is the list of its code points, which are taken to be below 256. The white space
  that \<^verbatim>\<open>int\<close> skips at both ends of a str: tab to carriage return and the space, and
  of the code points from 128 on the next-line and the no-break space. The separators
  0x1C to 0x1F, which \<^verbatim>\<open>str.strip\<close> removes, are not among them.
\<close>

definition is_space :: "char \<Rightarrow> bool" where
  "is_space c = (c \<in> set [CHR 0x09, CHR 0x0A, CHR 0x0B, CHR 0x0C, CHR 0x0D, CHR 0x20,
                            CHR 0x85, CHR 0xA0])"

definition is_digit :: "char \<Rightarrow> bool" where
  "is_digit c = (48 \<le> (of_char c :: nat) \<and> (of_char c :: nat) \<le> 57)"

definition digit_val :: "char \<Rightarrow> int" where
  "digit_val c = int (of_char c) - 48"

definition strip :: "string \<Rightarrow> string" where
  "strip s = rev (dropWhile is_space (rev (dropWhile is_space s)))"

text \<open>
  The digits of a decimal literal: single underscores are allowed between digits only.
  \<open>prev\<close> says that the character before was a digit.
\<close>

fun parse_digits :: "int \<Rightarrow> bool \<Rightarrow> string \<Rightarrow> int option" where
  "parse_digits acc prev [] = (if prev then Some acc else None)"
| "parse_digits acc prev (c # cs) =
     (if is_digit c then parse_digits (acc * 10 + digit_val c) True cs
      else if c = CHR ''_'' \<and> prev then parse_digits acc False cs
      else None)"

text \<open>
  \<^verbatim>\<open>int(s)\<close> for a str; \<open>None\<close> is the ValueError. A literal of more than 4300 digits
  (the default limit of the interpreter; the sign and the underscores do not count) is
  refused.
\<close>

definition py_int_str :: "string \<Rightarrow> int option" where
  "py_int_str s =
     (if 4300 < length (filter is_digit (strip s)) then None
      else
        (case strip s of
           [] \<Rightarrow> None
         | c # cs \<Rightarrow>
             if c = CHR ''-'' then map_option uminus (parse_digits 0 False cs)
             else if c = CHR ''+'' then parse_digits 0 False cs
             else parse_digits 0 False (c # cs)))"

function digits_of :: "nat \<Rightarrow> string" where
  "digits_of n =
     (if n < 10 then [''0123456789'' ! n]
      else digits_of (n div 10) @ [''0123456789'' ! (n mod 10)])"
  by pat_completeness auto
termination
  by (relation "measure id") auto

declare digits_of.simps [simp del]

text \<open>
  \<^verbatim>\<open>'{}'.format(i)\<close> for an int. (The ints that the driver formats into a command are
  clamped or rounded from a float: they stay far below the 4300 digits from which on
  the interpreter refuses to format.)
\<close>

definition py_str_int :: "int \<Rightarrow> string" where
  "py_str_int i = (if i < 0 then CHR ''-'' # digits_of (nat (- i)) else digits_of (nat i))"

text \<open>\<^verbatim>\<open>s.split(' ')\<close>: every single space separates; the result is never empty.\<close>

fun split_space :: "string \<Rightarrow> string list" where
  "split_space [] = [[]]"
| "split_space (c # cs) =
     (if c = CHR '' '' then [] # split_space cs
      else (case split_space cs of
              [] \<Rightarrow> [[c]]
            | w # ws \<Rightarrow> (c # w) # ws))"

text \<open>\<^verbatim>\<open>buffer[3:-1]\<close>: the characters from index 3 up to, not including, the last one.\<close>

definition slice_3_m1 :: "string \<Rightarrow> string" where
  "slice_3_m1 buffer = drop 3 (butlast buffer)"

text \<open>\<^verbatim>\<open>int(v)\<close>: a float is cut towards zero, a str is parsed.\<close>

fun py_int :: "pyval \<Rightarrow> error + int" where
  "py_int (PInt i) = Inr i"
| "py_int (PBool b) = Inr (if b then 1 else 0)"
| "py_int (PFloat (Finite x)) = Inr (if 0 \<le> x then \<lfloor>x\<rfloor> else \<lceil>x\<rceil>)"
| "py_int (PFloat NaN) = Inl ValueError"
| "py_int (PFloat f) = Inl OverflowError"
| "py_int (PStr s) = (case py_int_str s of None \<Rightarrow> Inl ValueError | Some i \<Rightarrow> Inr i)"
| "py_int PNone = Inl TypeError"

subsection \<open>The serial port\<close>

text \<open>
  The pyserial object. \<open>written\<close> is what has been written so far, one entry for each
  \<^verbatim>\<open>write\<close>. \<open>rx\<close> is what the device is sending: each byte with the number of clock
  ticks it arrives after the one before. \<open>replies\<close> is what the device will answer to
  the commands still to come, one line for each write: the device speaks only when it
  is asked. Resetting the input buffer drops what is left of an earlier answer. A port
  made from the address \<^verbatim>\<open>None\<close> is not open.
\<close>

record serial =
  port :: "string option"
  is_open :: bool
  written :: "string list"
  rx :: "(nat \<times> char) list"
  replies :: "(nat \<times> char) list list"

definition reset_input_buffer :: "serial \<Rightarrow> serial" where
  "reset_input_buffer t = t\<lparr>rx := []\<rparr>"

definition ser_write :: "string \<Rightarrow> serial \<Rightarrow> serial" where
  "ser_write bytes t =
     (case replies t of
        [] \<Rightarrow> t\<lparr>written := written t @ [bytes]\<rparr>
      | r # rs \<Rightarrow> t\<lparr>written := written t @ [bytes], rx := rx t @ r, replies := rs\<rparr>)"

text \<open>
  \<^verbatim>\<open>ser.read(1)\<close> on a port opened with read timeout \<open>T\<close>: the byte read (\<open>None\<close> is
  the empty \<^verbatim>\<open>b''\<close> of a read that timed out), the ticks the call took, and the port
  after it.
\<close>

definition ser_read1 :: "nat \<Rightarrow> serial \<Rightarrow> char option \<times> nat \<times> serial" where
  "ser_read1 T t =
     (case rx t of
        [] \<Rightarrow> (None, T, t)
      | (d, c) # rest \<Rightarrow>
          if d \<le> T then (Some c, d, t\<lparr>rx := rest\<rparr>)
          else (None, T, t\<lparr>rx := (d - T, c) # rest\<rparr>))"

subsection \<open>The controller object\<close>

text \<open>
  The attributes of a \<^verbatim>\<open>NikonRFA\<close> object; an attribute that has not been assigned yet
  is \<open>None\<close>. \<open>smallest_step\<close> is \<^verbatim>\<open>_smallest_um_step\<close>, \<open>cached_pos\<close> is \<^verbatim>\<open>_pos\<close>,
  \<open>logger\<close> is what has been logged. \<open>timeout\<close> is in clock ticks; the port is opened
  with the same timeout.
\<close>

record rfa =
  line_ending :: string
  timeout :: nat
  unit :: string
  ser :: "serial option"
  units_per_um :: "pyfloat option"
  smallest_step :: "pyval option"
  cached_pos :: "pyval option"
  moved_since_last_read :: "bool option"
  logger :: "log_record list"

definition log_msg :: "level \<Rightarrow> string \<Rightarrow> pyval list \<Rightarrow> rfa \<Rightarrow> rfa" where
  "log_msg l m args s = s\<lparr>logger := logger s @ [(l, m, args)]\<rparr>"

subsection \<open>\<^verbatim>\<open>query\<close>\<close>

text \<open>
  The read loop of \<^verbatim>\<open>query\<close>. \<open>elapsed\<close> is \<^verbatim>\<open>time.time() - t0\<close>. The loop returns the
  trimmed buffer when it reads a carriage return; when the time is up it ends, and the
  method returns \<^verbatim>\<open>None\<close>. A byte that is not ASCII makes \<^verbatim>\<open>decode\<close> raise. The
  carriage return is the literal of the source: \<^verbatim>\<open>query\<close> does not read the attribute
  \<^verbatim>\<open>_line_ending\<close>.
\<close>

function query_loop ::
  "nat \<Rightarrow> nat \<Rightarrow> string \<Rightarrow> serial \<Rightarrow> log_record list \<Rightarrow>
     (error + string option) \<times> serial \<times> log_record list" where
  "query_loop T elapsed buffer t lg =
     (if elapsed < T then
        (case ser_read1 T t of
           (oneByte, dt, t') \<Rightarrow>
             if oneByte = Some CR then
               (Inr (Some (slice_3_m1 buffer)), t', lg @ [(DEBUG, buffer, [])])
             else
               (case oneByte of
                  None \<Rightarrow> query_loop T (elapsed + dt) buffer t' lg
                | Some c \<Rightarrow>
                    if is_ascii c then query_loop T (elapsed + dt) (buffer @ [c]) t' lg
                    else (Inl UnicodeDecodeError, t', lg)))
      else (Inr None, t, lg))"
  by pat_completeness auto
termination
  by (relation "measures [\<lambda>(T, elapsed, buffer, t, lg). length (rx t),
                          \<lambda>(T, elapsed, buffer, t, lg). T - elapsed]")
     (auto simp: ser_read1_def split: list.splits if_splits prod.splits)

declare query_loop.simps [simp del]

text \<open>
  \<^verbatim>\<open>query\<close>: the input buffer is reset, the command is encoded and written, and the
  reply is read. A command with a character that is not ASCII makes \<^verbatim>\<open>encode\<close> raise,
  after the reset and before anything is written.
\<close>

definition query :: "string \<Rightarrow> rfa \<Rightarrow> (error + string option) \<times> rfa" where
  "query command s =
     (case ser s of
        None \<Rightarrow> (Inl AttributeError, s)
      | Some t \<Rightarrow>
          if \<not> is_open t then (Inl PortNotOpenError, s)
          else if \<not> list_all is_ascii command then
            (Inl UnicodeEncodeError, s\<lparr>ser := Some (reset_input_buffer t)\<rparr>)
          else
            (case query_loop (timeout s) 0 [] (ser_write (command @ [CR]) (reset_input_buffer t))
                    (logger s) of
               (r, t', lg) \<Rightarrow> (r, s\<lparr>ser := Some t', logger := lg\<rparr>)))"

subsection \<open>Encoder status\<close>

definition get_encoder_status :: "rfa \<Rightarrow> (error + pyval) \<times> rfa" where
  "get_encoder_status s =
     (case query ''ENCODER'' s of
        (Inl e, s1) \<Rightarrow> (Inl e, s1)
      | (Inr reply, s1) \<Rightarrow>
          if reply = Some ''OFF'' then (Inr (PBool False), s1)
          else if reply = Some ''ON '' then (Inr (PBool True), s1)
          else (Inr PNone, log_msg WARNING ''Unknown response'' [] s1))"

definition set_encoder_status :: "bool \<Rightarrow> rfa \<Rightarrow> (error + unit) \<times> rfa" where
  "set_encoder_status status s =
     (case query (if status then ''ENCODER ON'' else ''ENCODER OFF'') s of
        (Inl e, s1) \<Rightarrow> (Inl e, s1)
      | (Inr reply, s1) \<Rightarrow>
          (Inr (), log_msg DEBUG ''Setting encoder status {}'' [PBool status] s1))"

subsection \<open>Moving and reading the position\<close>

text \<open>
  \<^verbatim>\<open>int(round(um * self._units_per_um))\<close>, the argument of the commands MZ, RZ and HZ.
\<close>

definition device_units :: "pyval \<Rightarrow> rfa \<Rightarrow> error + int" where
  "device_units um s =
     (case units_per_um s of
        None \<Rightarrow> Inl AttributeError
      | Some u \<Rightarrow>
          (case py_mul_float um u of
             Inl e \<Rightarrow> Inl e
           | Inr x \<Rightarrow> py_round x))"

text \<open>\<^verbatim>\<open>'unexpected message: ' + reply\<close> raises when the reply is \<^verbatim>\<open>None\<close>.\<close>

definition warn_unexpected :: "string option \<Rightarrow> rfa \<Rightarrow> (error + unit) \<times> rfa" where
  "warn_unexpected reply s =
     (case reply of
        None \<Rightarrow> (Inl TypeError, s)
      | Some r \<Rightarrow> (Inr (), log_msg WARNING (''unexpected message: '' @ r) [] s))"

definition absmove :: "pyval \<Rightarrow> rfa \<Rightarrow> (error + unit) \<times> rfa" where
  "absmove um s =
     (case device_units um s of
        Inl e \<Rightarrow> (Inl e, s)
      | Inr n \<Rightarrow>
          (case query (''MZ '' @ py_str_int n) s of
             (Inl e, s1) \<Rightarrow> (Inl e, s1)
           | (Inr reply, s1) \<Rightarrow>
               (Inr (),
                (case reply of
                   Some (c # cs) \<Rightarrow> log_msg WARNING (''unexpected message: '' @ c # cs) [] s1
                 | _ \<Rightarrow> s1)\<lparr>moved_since_last_read := Some True\<rparr>)))"

definition relmove :: "pyval \<Rightarrow> rfa \<Rightarrow> (error + unit) \<times> rfa" where
  "relmove um s =
     (case device_units um s of
        Inl e \<Rightarrow> (Inl e, s)
      | Inr n \<Rightarrow>
          (case query (''RZ '' @ py_str_int n) s of
             (Inl e, s1) \<Rightarrow> (Inl e, s1)
           | (Inr reply, s1) \<Rightarrow>
               (Inr (),
                (case reply of
                   Some (c # cs) \<Rightarrow> log_msg WARNING (''unexpected message: '' @ c # cs) [] s1
                 | _ \<Rightarrow> s1)\<lparr>moved_since_last_read := Some True\<rparr>)))"

text \<open>
  \<^verbatim>\<open>int(reply) / self._units_per_um\<close>, the body of the \<^verbatim>\<open>try\<close> in \<^verbatim>\<open>get_position\<close>.
\<close>

definition microns :: "string option \<Rightarrow> rfa \<Rightarrow> error + pyfloat" where
  "microns reply s =
     (case reply of
        None \<Rightarrow> Inl TypeError
      | Some r \<Rightarrow>
          (case py_int_str r of
             None \<Rightarrow> Inl ValueError
           | Some n \<Rightarrow>
               (case units_per_um s of
                  None \<Rightarrow> Inl AttributeError
                | Some u \<Rightarrow> py_truediv_float n u)))"

definition get_position :: "rfa \<Rightarrow> (error + pyval) \<times> rfa" where
  "get_position s =
     (case query ''WZ'' s of
        (Inl e, s1) \<Rightarrow> (Inl e, s1)
      | (Inr reply, s1) \<Rightarrow>
          (case microns reply s1 of
             Inr p \<Rightarrow>
               (Inr (PFloat p),
                s1\<lparr>cached_pos := Some (PFloat p), moved_since_last_read := Some False\<rparr>)
           | Inl _ \<Rightarrow>
               (case warn_unexpected reply s1 of
                  (Inl e, s2) \<Rightarrow> (Inl e, s2)
                | (Inr _, s2) \<Rightarrow> (Inr PNone, s2))))"

text \<open>The property \<^verbatim>\<open>pos\<close>.\<close>

definition pos :: "rfa \<Rightarrow> (error + pyval) \<times> rfa" where
  "pos s =
     (case moved_since_last_read s of
        None \<Rightarrow> (Inl AttributeError, s)
      | Some True \<Rightarrow> get_position s
      | Some False \<Rightarrow>
          (case cached_pos s of
             None \<Rightarrow> (Inl AttributeError, s)
           | Some p \<Rightarrow> (Inr p, s)))"

definition absmove_read :: "pyval \<Rightarrow> rfa \<Rightarrow> (error + pyval) \<times> rfa" where
  "absmove_read um s =
     (case pos s of
        (Inl e, s1) \<Rightarrow> (Inl e, s1)
      | (Inr pos_before_move, s1) \<Rightarrow>
          (case absmove um s1 of
             (Inl e, s2) \<Rightarrow> (Inl e, s2)
           | (Inr _, s2) \<Rightarrow>
               (case pos s2 of
                  (Inl e, s3) \<Rightarrow> (Inl e, s3)
                | (Inr p, s3) \<Rightarrow>
                    pos (if py_eq p pos_before_move
                         then log_msg WARNING
                                ''Stage didn't move. Perhaps step too small or out of range.'' [] s3
                         else s3))))"

definition relmove_read :: "pyval \<Rightarrow> rfa \<Rightarrow> (error + pyval) \<times> rfa" where
  "relmove_read um s =
     (case pos s of
        (Inl e, s1) \<Rightarrow> (Inl e, s1)
      | (Inr pos_before_move, s1) \<Rightarrow>
          (case relmove um s1 of
             (Inl e, s2) \<Rightarrow> (Inl e, s2)
           | (Inr _, s2) \<Rightarrow>
               (case pos s2 of
                  (Inl e, s3) \<Rightarrow> (Inl e, s3)
                | (Inr p, s3) \<Rightarrow>
                    pos (if py_eq p pos_before_move
                         then log_msg WARNING
                                ''Stage didn't move. Perhaps step too small or out of range.'' [] s3
                         else s3))))"

subsection \<open>Resolution\<close>

definition get_resolution_info :: "rfa \<Rightarrow> (error + unit) \<times> rfa" where
  "get_resolution_info s =
     (case query ''RESOLUTION'' s of
        (Inl e, s1) \<Rightarrow> (Inl e, s1)
      | (Inr None, s1) \<Rightarrow> (Inl AttributeError, s1)
      | (Inr (Some reply), s1) \<Rightarrow>
          (case split_space reply of
             [number, fraction] \<Rightarrow>
               (let s2 = (if fraction = ''HUNDREDTHS'' then s1\<lparr>units_per_um := Some (Finite 100)\<rparr>
                          else if fraction = ''TENTHS'' then s1\<lparr>units_per_um := Some (Finite 10)\<rparr>
                          else s1)
                in case py_int_str number of
                     None \<Rightarrow> (Inl ValueError, s2)
                   | Some n \<Rightarrow>
                       (Inr (), log_msg INFO ''Setting smallest_um_step to {}'' [PInt n]
                                  (s2\<lparr>smallest_step := Some (PInt n)\<rparr>)))
           | _ \<Rightarrow> (Inl ValueError, s1)))"

text \<open>The property \<^verbatim>\<open>smallest_um_step\<close> and its setter.\<close>

definition smallest_um_step :: "rfa \<Rightarrow> (error + pyval) \<times> rfa" where
  "smallest_um_step s =
     (case smallest_step s of
        None \<Rightarrow> (Inl AttributeError, s)
      | Some v \<Rightarrow> (Inr v, s))"


subsection \<open>Close, halt, reset, zero, redefine\<close>

definition close :: "rfa \<Rightarrow> (error + unit) \<times> rfa" where
  "close s =
     (case ser s of
        None \<Rightarrow> (Inl AttributeError, s)
      | Some t \<Rightarrow> (Inr (), s\<lparr>ser := Some (t\<lparr>is_open := False\<rparr>)\<rparr>))"

definition halt :: "rfa \<Rightarrow> (error + unit) \<times> rfa" where
  "halt s =
     (case query ''halt'' (log_msg DEBUG ''Halting the device'' [] s) of
        (Inl e, s1) \<Rightarrow> (Inl e, s1)
      | (Inr _, s1) \<Rightarrow> (Inr (), s1))"

definition reset :: "rfa \<Rightarrow> (error + unit) \<times> rfa" where
  "reset s =
     (case query ''reset'' (log_msg DEBUG ''Halting the device'' [] s) of
        (Inl e, s1) \<Rightarrow> (Inl e, s1)
      | (Inr _, s1) \<Rightarrow> (Inr (), s1))"

definition zero :: "rfa \<Rightarrow> (error + unit) \<times> rfa" where
  "zero s =
     (case query ''zero'' (log_msg DEBUG ''setting the origin'' [] s) of
        (Inl e, s1) \<Rightarrow> (Inl e, s1)
      | (Inr _, s1) \<Rightarrow> (Inr (), s1\<lparr>cached_pos := Some (PFloat (Finite 0))\<rparr>))"

definition redefine_position :: "pyval \<Rightarrow> rfa \<Rightarrow> (error + unit) \<times> rfa" where
  "redefine_position um s =
     (let s0 = log_msg DEBUG ''redefining the current position to {}um'' [um] s
      in case device_units um s0 of
           Inl e \<Rightarrow> (Inl e, s0)
         | Inr n \<Rightarrow>
             (case query (''HZ '' @ py_str_int n) s0 of
                (Inl e, s1) \<Rightarrow> (Inl e, s1)
              | (Inr _, s1) \<Rightarrow> (Inr (), s1\<lparr>cached_pos := Some um\<rparr>)))"

subsection \<open>Speed and ramp slope\<close>

definition maxspeed :: "rfa \<Rightarrow> (error + int) \<times> rfa" where
  "maxspeed s =
     (case query ''speed'' s of
        (Inl e, s1) \<Rightarrow> (Inl e, s1)
      | (Inr reply, s1) \<Rightarrow>
          (case py_int (case reply of None \<Rightarrow> PNone | Some r \<Rightarrow> PStr r) of
             Inl e \<Rightarrow> (Inl e, s1)
           | Inr n \<Rightarrow> (Inr n, s1)))"

definition minspeed :: "rfa \<Rightarrow> (error + int) \<times> rfa" where
  "minspeed s =
     (case query ''minspeed'' s of
        (Inl e, s1) \<Rightarrow> (Inl e, s1)
      | (Inr reply, s1) \<Rightarrow>
          (case py_int (case reply of None \<Rightarrow> PNone | Some r \<Rightarrow> PStr r) of
             Inl e \<Rightarrow> (Inl e, s1)
           | Inr n \<Rightarrow> (Inr n, s1)))"

definition rampslope :: "rfa \<Rightarrow> (error + int) \<times> rfa" where
  "rampslope s =
     (case query ''rampslope'' s of
        (Inl e, s1) \<Rightarrow> (Inl e, s1)
      | (Inr reply, s1) \<Rightarrow>
          (case py_int (case reply of None \<Rightarrow> PNone | Some r \<Rightarrow> PStr r) of
             Inl e \<Rightarrow> (Inl e, s1)
           | Inr n \<Rightarrow> (Inr n, s1)))"

definition maxspeed_set :: "pyval \<Rightarrow> rfa \<Rightarrow> (error + unit) \<times> rfa" where
  "maxspeed_set v s =
     (case py_int v of
        Inl e \<Rightarrow> (Inl e, s)
      | Inr i \<Rightarrow>
          (case (if i < 50 then (50, log_msg WARNING ''minimum speed is 50'' [] s)
                 else if 60000 < i then (60000, log_msg WARNING ''maximum speed is 60000'' [] s)
                 else (i, s)) of
             (i', s0) \<Rightarrow>
               (case query (''speed '' @ py_str_int i') s0 of
                  (Inl e, s1) \<Rightarrow> (Inl e, s1)
                | (Inr _, s1) \<Rightarrow> (Inr (), s1))))"

definition minspeed_set :: "pyval \<Rightarrow> rfa \<Rightarrow> (error + unit) \<times> rfa" where
  "minspeed_set v s =
     (case py_int v of
        Inl e \<Rightarrow> (Inl e, s)
      | Inr i \<Rightarrow>
          (case (if i < 50 then (50, log_msg WARNING ''minimum speed is 50'' [] s)
                 else if 60000 < i then (60000, log_msg WARNING ''maximum speed is 60000'' [] s)
                 else (i, s)) of
             (i', s0) \<Rightarrow>
               (case query (''minspeed '' @ py_str_int i') s0 of
                  (Inl e, s1) \<Rightarrow> (Inl e, s1)
                | (Inr _, s1) \<Rightarrow> (Inr (), s1))))"

definition rampslope_set :: "pyval \<Rightarrow> rfa \<Rightarrow> (error + unit) \<times> rfa" where
  "rampslope_set a s =
     (case py_int a of
        Inl e \<Rightarrow> (Inl e, s)
      | Inr i \<Rightarrow>
          (case (if i < 1 then (1, log_msg WARNING ''minimum acceleration is 1'' [] s)
                 else if 255 < i then (255, log_msg WARNING ''maximum acceleration is  255'' [] s)
                 else (i, s)) of
             (i', s0) \<Rightarrow>
               (case query (''rampslope '' @ py_str_int i') s0 of
                  (Inl e, s1) \<Rightarrow> (Inl e, s1)
                | (Inr _, s1) \<Rightarrow> (Inr (), s1))))"

subsection \<open>Construction\<close>

text \<open>
  What \<^verbatim>\<open>__init__\<close> finds outside the program: the ports listed by
  \<^verbatim>\<open>list_ports.comports()\<close>, and for each address the lines that the device behind it
  will answer (\<open>None\<close>: the address cannot be opened).
\<close>

record port_info =
  device :: string
  vid :: "int option"
  pid :: "int option"

record world =
  comports :: "port_info list"
  devices :: "string \<Rightarrow> (nat \<times> char) list list option"

text \<open>\<^verbatim>\<open>serial.Serial(port, timeout=timeout)\<close>: with the port \<^verbatim>\<open>None\<close> nothing is opened.\<close>

definition Serial :: "world \<Rightarrow> string option \<Rightarrow> error + serial" where
  "Serial w p =
     (case p of
        None \<Rightarrow> Inr \<lparr>port = None, is_open = False, written = [], rx = [], replies = []\<rparr>
      | Some a \<Rightarrow>
          (case devices w a of
             None \<Rightarrow> Inl SerialException
           | Some rs \<Rightarrow> Inr \<lparr>port = Some a, is_open = True, written = [], rx = [], replies = rs\<rparr>))"

definition reply_val :: "string option \<Rightarrow> pyval" where
  "reply_val r = (case r of None \<Rightarrow> PNone | Some x \<Rightarrow> PStr x)"

text \<open>
  \<^verbatim>\<open>__init__(port, newline, timeout, vid, pid)\<close>. The first \<open>case\<close> is the block
  \<^verbatim>\<open>if port is None\<close>: it gives \<open>None\<close> where the source returns, and otherwise the port
  that goes to \<^verbatim>\<open>serial.Serial\<close>.
\<close>

definition init ::
  "string option \<Rightarrow> string \<Rightarrow> nat \<Rightarrow> pyval \<Rightarrow> pyval \<Rightarrow> world \<Rightarrow> (error + unit) \<times> rfa" where
  "init port0 newline tmo vid0 pid0 w =
     (let s0 = \<lparr>line_ending = newline, timeout = tmo, unit = ''um'', ser = None,
                units_per_um = None, smallest_step = None, cached_pos = None,
                moved_since_last_read = None, logger = []\<rparr>
      in
      case (case port0 of
              Some a \<Rightarrow> (Some (Some a), s0)
            | None \<Rightarrow>
                (case (vid0, pid0) of
                   (PInt v, PInt p) \<Rightarrow>
                     (let matches = map device
                            (filter (\<lambda>d. vid d = Some v \<and> pid d = Some p) (comports w))
                      in if length matches = 0 then
                           (None, log_msg ERROR ''No match found for vid={} pis={}'' [vid0, pid0] s0)
                         else if 1 < length matches then
                           (Some None,
                            log_msg WARNING ''Multiple matches found. Using first one'' [] s0)
                         else (Some (Some (matches ! 0)), s0))
                 | _ \<Rightarrow>
                     (Some None,
                      log_msg ERROR
                        ''If port is not supplied, vid and pid need to be supplied (ints)'' [] s0))) of
        (None, s1) \<Rightarrow> (Inr (), s1)
      | (Some port1, s1) \<Rightarrow>
      (case Serial w port1 of
        Inl e \<Rightarrow> (Inl e, s1)
      | Inr t \<Rightarrow>
      (case query ''WHO'' (s1\<lparr>ser := Some t\<rparr>) of
        (Inl e, s2) \<Rightarrow> (Inl e, s2)
      | (Inr idn, s2) \<Rightarrow>
      (case (if idn = Some ''Remote Focus Accessory (M)'' then
               (case query ''VERSION'' s2 of
                  (Inl e, s3) \<Rightarrow> (Inl e, s3)
                | (Inr ver, s3) \<Rightarrow>
                    (Inr (), log_msg INFO ''Connected to {}, firmware: {}''
                               [reply_val idn, reply_val ver] s3))
             else (Inr (), log_msg WARNING ''Device did not identify'' [] s2)) of
        (Inl e, s3) \<Rightarrow> (Inl e, s3)
      | (Inr _, s3) \<Rightarrow>
      (case get_resolution_info s3 of
        (Inl e, s4) \<Rightarrow> (Inl e, s4)
      | (Inr _, s4) \<Rightarrow>
      (case get_encoder_status s4 of
        (Inl e, s5) \<Rightarrow> (Inl e, s5)
      | (Inr status, s5) \<Rightarrow>
      (case (if status \<noteq> PBool True then set_encoder_status True s5 else (Inr (), s5)) of
        (Inl e, s6) \<Rightarrow> (Inl e, s6)
      | (Inr _, s6) \<Rightarrow>
      (case get_position s6 of
        (Inl e, s7) \<Rightarrow> (Inl e, s7)
      | (Inr _, s7) \<Rightarrow> (Inr (), s7\<lparr>moved_since_last_read := Some True\<rparr>)))))))))"

subsection \<open>Example devices\<close>

text \<open>A line whose bytes arrive with no delay, and an open port that answers such lines.\<close>

definition line_of :: "string \<Rightarrow> (nat \<times> char) list" where
  "line_of x = map (Pair 0) x"

definition ex_port :: "string list \<Rightarrow> serial" where
  "ex_port ls =
     \<lparr>port = Some ''COM3'', is_open = True, written = [], rx = [], replies = map line_of ls\<rparr>"

text \<open>
  A controller as a construction leaves it with a device of hundredths, with the position
  0.0 in the cache; \<open>dirty\<close> is the flag \<^verbatim>\<open>_moved_since_last_read\<close>.
\<close>

definition ex_rfa :: "bool \<Rightarrow> serial \<Rightarrow> rfa" where
  "ex_rfa dirty t =
     \<lparr>line_ending = [CR], timeout = 2, unit = ''um'', ser = Some t,
      units_per_um = Some (Finite 100), smallest_step = Some (PInt 5),
      cached_pos = Some (PFloat (Finite 0)), moved_since_last_read = Some dirty, logger = []\<rparr>"

text \<open>A controller inside \<^verbatim>\<open>__init__\<close>, when the port has just been opened.\<close>

definition ex_new :: "serial \<Rightarrow> rfa" where
  "ex_new t =
     \<lparr>line_ending = [CR], timeout = 2, unit = ''um'', ser = Some t,
      units_per_um = None, smallest_step = None, cached_pos = None,
      moved_since_last_read = None, logger = []\<rparr>"

text \<open>
  A world in which every address of \<open>ports\<close> is listed with the same vendor and product
  id, and the device behind it answers the lines \<open>ls\<close>.
\<close>

definition ex_world :: "string list \<Rightarrow> string list \<Rightarrow> world" where
  "ex_world ports ls =
     \<lparr>comports = map (\<lambda>a. \<lparr>device = a, vid = Some 6790, pid = Some 29987\<rparr>) ports,
      devices = (\<lambda>a. if a \<in> set ports then Some (map line_of ls) else None)\<rparr>"

text \<open>
  The answers of a device to the commands of a construction and to one more WZ. Each
  reply has the prefix, the payload, one more character and the carriage return.
\<close>

definition ex_replies :: "string list" where
  "ex_replies =
     ['':A Remote Focus Accessory (M) '' @ [CR], '':A 1.0 '' @ [CR], '':A 5 HUNDREDTHS '' @ [CR],
      '':A ON  '' @ [CR], '':A 0 '' @ [CR], '':A 1700 '' @ [CR]]"

section \<open>Properties\<close>

subsection \<open>The reply of \<^verbatim>\<open>query\<close>\<close>

lemma query_loop_line:
  "rx t = xs @ (d, CR) # tl0 \<Longrightarrow> elapsed + sum_list (map fst xs) + d < T \<Longrightarrow>
   CR \<notin> snd ` set xs \<Longrightarrow> \<forall>c \<in> snd ` set xs. is_ascii c \<Longrightarrow>
   query_loop T elapsed buffer t lg =
     (Inr (Some (slice_3_m1 (buffer @ map snd xs))), t\<lparr>rx := tl0\<rparr>,
      lg @ [(DEBUG, buffer @ map snd xs, [])])"
proof (induction xs arbitrary: elapsed buffer t)
  case Nil
  then show ?case by (subst query_loop.simps) (simp add: ser_read1_def)
next
  case (Cons x xs)
  obtain dx c where x: "x = (dx, c)" by (cases x)
  from Cons.prems x have c: "c \<noteq> CR" "is_ascii c" and dx: "dx \<le> T" "elapsed < T"
    and rest: "(elapsed + dx) + sum_list (map fst xs) + d < T"
    by auto
  have "query_loop T elapsed buffer t lg =
        query_loop T (elapsed + dx) (buffer @ [c]) (t\<lparr>rx := xs @ (d, CR) # tl0\<rparr>) lg"
    using c dx x Cons.prems(1) by (subst query_loop.simps) (simp add: ser_read1_def)
  also have "\<dots> = (Inr (Some (slice_3_m1 ((buffer @ [c]) @ map snd xs))),
      (t\<lparr>rx := xs @ (d, CR) # tl0\<rparr>)\<lparr>rx := tl0\<rparr>,
      lg @ [(DEBUG, (buffer @ [c]) @ map snd xs, [])])"
    using Cons.prems rest by (intro Cons.IH) auto
  finally show ?case using x by simp
qed

lemma split_line:
  "map snd l = body @ [c] \<Longrightarrow> \<exists>xs d. l = xs @ [(d, c)] \<and> map snd xs = body"
proof (induction l arbitrary: body)
  case Nil
  then show ?case by simp
next
  case (Cons a l)
  show ?case
  proof (cases body)
    case Nil
    with Cons.prems have "l = []" "snd a = c" by auto
    then have "a # l = [] @ [(fst a, c)]" by (cases a) simp
    then show ?thesis using Nil by (intro exI [of _ "[]"] exI [of _ "fst a"]) simp
  next
    case (Cons b body')
    with Cons.prems have "map snd l = body' @ [c]" "snd a = b" by auto
    with Cons.IH obtain xs d where "l = xs @ [(d, c)]" "map snd xs = body'" by blast
    then show ?thesis using Cons \<open>snd a = b\<close>
      by (intro exI [of _ "a # xs"] exI [of _ d]) simp
  qed
qed

text \<open>
  What \<^verbatim>\<open>query\<close> does, for an ASCII command, with a line that ends with a carriage
  return and arrives in time: the line without the carriage return is logged, and its
  slice \<^verbatim>\<open>[3:-1]\<close> is returned.
\<close>

lemma query_line:
  assumes "ser s = Some t" "is_open t" "replies t = l # rest"
    and "map snd l = body @ [CR]" "CR \<notin> set body" "\<forall>c \<in> set body. is_ascii c"
    and "sum_list (map fst l) < timeout s"
    and "list_all is_ascii command"
  shows "query command s =
    (Inr (Some (slice_3_m1 body)),
     s\<lparr>ser := Some (t\<lparr>written := written t @ [command @ [CR]], rx := [], replies := rest\<rparr>),
       logger := logger s @ [(DEBUG, body, [])]\<rparr>)"
proof -
  from split_line [OF assms(4)] obtain xs d
    where l: "l = xs @ [(d, CR)]" and xs: "map snd xs = body"
    by blast
  have sum: "0 + sum_list (map fst xs) + d < timeout s" using assms(7) l by simp
  have a: "CR \<notin> snd ` set xs" "\<forall>c \<in> snd ` set xs. is_ascii c"
    using assms(5,6) xs by (metis set_map)+
  have w: "rx (ser_write (command @ [CR]) (reset_input_buffer t)) = xs @ (d, CR) # []"
    using assms(3) l by (simp add: ser_write_def reset_input_buffer_def)
  show ?thesis
    unfolding query_def using assms(1,2,3,8)
    by (simp add: query_loop_line [OF w sum a] xs)
       (simp add: ser_write_def reset_input_buffer_def)
qed

text \<open>
  Whatever the device answers, the read loop leaves what was written alone, and logs at
  most debug records.
\<close>

lemma query_loop_effect:
  "\<exists>r t' dbg. query_loop T elapsed buffer t lg = (r, t', lg @ dbg) \<and>
     written t' = written t \<and> is_open t' = is_open t \<and> port t' = port t \<and>
     replies t' = replies t \<and> (\<forall>x \<in> set dbg. fst x = DEBUG)"
proof (induction T elapsed buffer t lg rule: query_loop.induct)
  case (1 T elapsed buffer t lg)
  show ?case
  proof (cases "elapsed < T")
    case False
    then show ?thesis by (subst query_loop.simps) simp
  next
    case True
    obtain oneByte dt t' where r: "ser_read1 T t = (oneByte, dt, t')"
      by (cases "ser_read1 T t") auto
    then have t': "written t' = written t" "is_open t' = is_open t" "port t' = port t"
      "replies t' = replies t"
      by (auto simp: ser_read1_def split: list.splits if_splits prod.splits)
    show ?thesis
    proof (cases "oneByte = Some CR")
      case True
      with \<open>elapsed < T\<close> r t' show ?thesis by (subst query_loop.simps) simp
    next
      case notCR: False
      show ?thesis
      proof (cases oneByte)
        case None
        from "1.IH"(1) [OF True r [symmetric] refl notCR None] t' True r notCR None
        show ?thesis by (subst query_loop.simps) simp
      next
        case (Some c)
        show ?thesis
        proof (cases "is_ascii c")
          case asc: True
          from "1.IH"(2) [OF True r [symmetric] refl notCR Some asc] t' True r notCR Some asc
          show ?thesis by (subst query_loop.simps) simp
        next
          case False
          with True r notCR Some t' show ?thesis by (subst query_loop.simps) simp
        qed
      qed
    qed
  qed
qed

text \<open>
  On an open port \<^verbatim>\<open>query\<close> writes an ASCII command and a carriage return, once, and
  changes nothing of the object but the port and the log.
\<close>

lemma query_effect:
  assumes "ser s = Some t" and "is_open t" and "list_all is_ascii command"
  shows "\<exists>r t' dbg. query command s = (r, s\<lparr>ser := Some t', logger := logger s @ dbg\<rparr>) \<and>
     written t' = written t @ [command @ [CR]] \<and> is_open t' \<and> port t' = port t \<and>
     (\<forall>x \<in> set dbg. fst x = DEBUG)"
proof -
  let ?t0 = "ser_write (command @ [CR]) (reset_input_buffer t)"
  have t0: "written ?t0 = written t @ [command @ [CR]]" "is_open ?t0" "port ?t0 = port t"
    using assms(2) by (auto simp: ser_write_def reset_input_buffer_def split: list.splits)
  from query_loop_effect [of "timeout s" 0 "[]" ?t0 "logger s"]
  obtain r t' dbg where q: "query_loop (timeout s) 0 [] ?t0 (logger s) = (r, t', logger s @ dbg)"
    and t': "written t' = written ?t0" "is_open t' = is_open ?t0" "port t' = port ?t0"
    "\<forall>x \<in> set dbg. fst x = DEBUG"
    by blast
  show ?thesis
    using assms t0 q t' by (intro exI [of _ r] exI [of _ t'] exI [of _ dbg]) (simp add: query_def)
qed

text \<open>When no carriage return comes, the loop runs until the time is up and gives \<^verbatim>\<open>None\<close>.\<close>

lemma query_loop_silent:
  "CR \<notin> snd ` set (rx t) \<Longrightarrow> \<forall>c \<in> snd ` set (rx t). is_ascii c \<Longrightarrow>
   fst (query_loop T elapsed buffer t lg) = Inr None"
proof (induction T elapsed buffer t lg rule: query_loop.induct)
  case (1 T elapsed buffer t lg)
  show ?case
  proof (cases "elapsed < T")
    case False
    then show ?thesis by (subst query_loop.simps) simp
  next
    case True
    obtain oneByte dt t' where r: "ser_read1 T t = (oneByte, dt, t')"
      by (cases "ser_read1 T t") auto
    with "1.prems" have t': "CR \<notin> snd ` set (rx t')" "\<forall>c \<in> snd ` set (rx t'). is_ascii c"
      and b: "oneByte \<noteq> Some CR" "\<And>c. oneByte = Some c \<Longrightarrow> is_ascii c"
      by (auto simp: ser_read1_def split: list.splits if_splits prod.splits)
    show ?thesis
    proof (cases oneByte)
      case None
      from "1.IH"(1) [OF True r [symmetric] refl b(1) None t'] True r b None
      show ?thesis by (subst query_loop.simps) simp
    next
      case (Some c)
      from "1.IH"(2) [OF True r [symmetric] refl b(1) Some b(2) [OF Some] t'] True r b Some
      show ?thesis by (subst query_loop.simps) simp
    qed
  qed
qed

lemmas query_eval =
  query_def query_loop.simps ser_write_def reset_input_buffer_def ser_read1_def slice_3_m1_def
  CR_def is_ascii_def line_of_def ex_port_def ex_rfa_def ex_new_def

text \<open>
  \<^verbatim>\<open>int\<close> does not skip a separator such as 0x1F, and a command that is not ASCII is
  refused before it is written.
\<close>

lemma py_int_str_examples:
  "py_int_str (''17'' @ [CHR 0x1F]) = None"
  "py_int_str ('' -1_700'' @ [CHR 0x0A]) = Some (- 1700)"
  "py_int_str ''1__7'' = None"
  "py_int_str (replicate 4301 CHR ''1'') = None"
  by (simp_all add: py_int_str_def strip_def is_space_def is_digit_def digit_val_def)

lemma query_non_ascii_command:
  "query [CHR 0xE9] (ex_rfa True (ex_port [''001-42 '' @ [CR]])) =
     (Inl UnicodeEncodeError, ex_rfa True (ex_port [''001-42 '' @ [CR]]))"
  by (simp add: query_eval)

text \<open>
  C1, as the claim states it, fails: the carriage return never reaches the buffer, so the
  slice \<^verbatim>\<open>[3:-1]\<close> takes the last character of the payload away. The line
  \<^verbatim>\<open>001-42\r\<close> gives \<^verbatim>\<open>-4\<close>, not \<^verbatim>\<open>-42\<close>.
\<close>

theorem query_framing_counterexample:
  "fst (query ''WZ'' (ex_rfa True (ex_port [''001-42'' @ [CR]]))) = Inr (Some ''-4'') \<and>
   fst (query ''WZ'' (ex_rfa True (ex_port [''001-42'' @ [CR]]))) \<noteq> Inr (Some ''-42'')"
  by (simp add: query_eval)

text \<open>
  C1, amended: for every reply line made of a prefix of three characters, a payload and
  the carriage return (ASCII, and arriving before the timeout), \<^verbatim>\<open>query\<close> writes the
  command (an ASCII one; another makes \<^verbatim>\<open>encode\<close> raise before anything is written)
  with a carriage return and returns the payload without its last character:
  the prefix, the carriage return and the character before the carriage return are
  stripped.
\<close>

theorem query_strips_prefix_and_last:
  assumes "ser s = Some t" and "is_open t" and "replies t = l # rest"
    and "map snd l = prefix @ payload @ [CR]" and "length prefix = 3"
    and "CR \<notin> set (prefix @ payload)" and "\<forall>c \<in> set (prefix @ payload). is_ascii c"
    and "sum_list (map fst l) < timeout s"
    and "list_all is_ascii command"
  shows "query command s =
    (Inr (Some (butlast payload)),
     s\<lparr>ser := Some (t\<lparr>written := written t @ [command @ [CR]], rx := [], replies := rest\<rparr>),
       logger := logger s @ [(DEBUG, prefix @ payload, [])]\<rparr>)"
proof -
  have "slice_3_m1 (prefix @ payload) = butlast payload"
    using assms(5) by (cases payload rule: rev_cases) (simp_all add: slice_3_m1_def butlast_append)
  moreover have "map snd l = (prefix @ payload) @ [CR]" using assms(4) by simp
  ultimately show ?thesis
    using query_line [OF assms(1-3) _ assms(6,7,8,9)] by simp
qed

theorem query_strips_prefix_and_last_witness:
  "query ''WZ'' (ex_rfa True (ex_port [''001-42 '' @ [CR], ''001-43 '' @ [CR]])) =
    (Inr (Some ''-42''),
     (ex_rfa True (ex_port []))
       \<lparr>ser := Some ((ex_port [''001-43 '' @ [CR]])\<lparr>written := [''WZ'' @ [CR]]\<rparr>),
         logger := [(DEBUG, ''001-42 '', [])]\<rparr>)"
  using query_strips_prefix_and_last
    [of "ex_rfa True (ex_port [''001-42 '' @ [CR], ''001-43 '' @ [CR]])"
        "ex_port [''001-42 '' @ [CR], ''001-43 '' @ [CR]]"
        "line_of (''001-42 '' @ [CR])" "[line_of (''001-43 '' @ [CR])]"
        "''001''" "''-42 ''" "''WZ''"]
  by (simp add: ex_rfa_def ex_port_def line_of_def CR_def is_ascii_def)

lemma query_silent:
  assumes "ser s = Some t" and "is_open t" and "replies t = l # rest"
    and "CR \<notin> snd ` set l" and "\<forall>c \<in> snd ` set l. is_ascii c"
    and "list_all is_ascii command"
  shows "fst (query command s) = Inr None"
proof -
  let ?t0 = "ser_write (command @ [CR]) (reset_input_buffer t)"
  have "rx ?t0 = l" using assms(3) by (simp add: ser_write_def reset_input_buffer_def)
  with assms(4,5) have "fst (query_loop (timeout s) 0 [] ?t0 (logger s)) = Inr None"
    by (intro query_loop_silent) simp_all
  then show ?thesis using assms(1,2,6) by (auto simp: query_def split: prod.splits)
qed

text \<open>
  C4: the code does not do what the claim says. The device sends \<^verbatim>\<open>001-4\<close> and no
  carriage return; after the timeout \<^verbatim>\<open>query\<close> returns \<^verbatim>\<open>None\<close>, and the five
  characters of the buffer are lost. (\<open>query_silent\<close> says the same of every line without
  a carriage return.)
\<close>

theorem query_timeout_returns_None:
  "fst (query ''WZ'' (ex_rfa True (ex_port [''001-4'']))) = Inr None"
  by (simp add: query_eval)

text \<open>\<^verbatim>\<open>query\<close> changes the port and the log, and no other attribute.\<close>

lemma query_keeps:
  "query command s = (r, s1) \<Longrightarrow> \<exists>t lg. s1 = s\<lparr>ser := t, logger := lg\<rparr>"
  by (auto simp: query_def split: option.splits if_splits prod.splits)
     (metis rfa.surjective rfa.update_convs(4,9))+

lemma query_keeps_fields:
  assumes "query command s = (r, s1)"
  shows "units_per_um s1 = units_per_um s" "smallest_step s1 = smallest_step s"
    "cached_pos s1 = cached_pos s" "moved_since_last_read s1 = moved_since_last_read s"
    "timeout s1 = timeout s"
  using query_keeps [OF assms] by auto

subsection \<open>Rounding to a float\<close>

text \<open>
  The rounding of a rational to a float is off by at most half a unit in the last place;
  the lemmas below bound it, and give the rounded value when the exponent is known.
\<close>

lemma pow2_powi: "pow2 k = 2 powi k"
  by (simp add: pow2_def power_int_def inverse_eq_divide power_one_over)

lemma bit_length_pos: "0 < n \<Longrightarrow> 0 < bit_length n"
  by (subst bit_length.simps) simp

lemma bit_length_bounds:
  "0 < n \<Longrightarrow> 2 ^ (bit_length n - 1) \<le> n \<and> n < 2 ^ bit_length n"
proof (induction n rule: bit_length.induct)
  case (1 n)
  show ?case
  proof (cases "n div 2 = 0")
    case True
    with "1.prems" have "n = 1" by (simp add: div_eq_0_iff)
    then show ?thesis by (simp add: bit_length.simps)
  next
    case False
    then have m: "0 < n div 2" by simp
    from "1.IH" [OF _ m] "1.prems"
    have ih: "2 ^ (bit_length (n div 2) - 1) \<le> n div 2" "n div 2 < 2 ^ bit_length (n div 2)"
      by auto
    have bl: "bit_length n = Suc (bit_length (n div 2))"
      using "1.prems" by (subst bit_length.simps) simp
    have pos: "0 < bit_length (n div 2)"
      using m by (subst bit_length.simps) simp
    then have "(2::nat) ^ bit_length (n div 2) = 2 * 2 ^ (bit_length (n div 2) - 1)"
      by (cases "bit_length (n div 2)") simp_all
    with ih have "2 ^ bit_length (n div 2) \<le> n" by arith
    moreover from ih have "n < 2 * 2 ^ bit_length (n div 2)" by arith
    ultimately show ?thesis by (simp add: bl)
  qed
qed

lemma ilog2_bounds:
  assumes "0 < x"
  shows "pow2 (ilog2 x) \<le> x \<and> x < pow2 (ilog2 x + 1)"
proof (cases "1 \<le> x")
  case True
  let ?n = "nat \<lfloor>x\<rfloor>"
  have n: "0 < ?n" using True by simp
  from bit_length_bounds [OF n]
  have b: "2 ^ (bit_length ?n - 1) \<le> ?n" "?n < 2 ^ bit_length ?n" by auto
  have blpos: "0 < bit_length ?n" using n by (rule bit_length_pos)
  have e: "ilog2 x = int (bit_length ?n - 1)"
    using True blpos by (simp add: ilog2_def)
  have nx: "rat_of_nat ?n \<le> x" using True by simp
  have "rat_of_nat (2 ^ (bit_length ?n - 1)) \<le> rat_of_nat ?n" using b(1) by (rule of_nat_mono)
  moreover have "rat_of_nat (2 ^ (bit_length ?n - 1)) = 2 ^ (bit_length ?n - 1)" by simp
  ultimately have lo: "2 ^ (bit_length ?n - 1) \<le> x" using nx by linarith
  have "Suc ?n \<le> 2 ^ bit_length ?n" using b(2) by (rule Suc_leI)
  then have "rat_of_nat (Suc ?n) \<le> rat_of_nat (2 ^ bit_length ?n)" by (rule of_nat_mono)
  moreover have "rat_of_nat (2 ^ bit_length ?n) = 2 ^ bit_length ?n" by simp
  moreover have "rat_of_nat (Suc ?n) = of_int \<lfloor>x\<rfloor> + 1" using True by simp
  moreover have "x < of_int \<lfloor>x\<rfloor> + 1" by linarith
  ultimately have hi: "x < 2 ^ bit_length ?n" by linarith
  have "int (bit_length ?n - 1) + 1 = int (bit_length ?n)" using blpos by simp
  then show ?thesis using lo hi by (simp add: e pow2_def del: of_nat_diff)
next
  case False
  let ?c = "\<lceil>1 / x\<rceil>"
  let ?m = "nat ?c - 1"
  from False assms have y: "1 < 1 / x" by simp
  then have c: "2 \<le> ?c" by linarith
  then have m: "0 < ?m" by linarith
  from bit_length_bounds [OF m]
  have b: "2 ^ (bit_length ?m - 1) \<le> ?m" "?m < 2 ^ bit_length ?m" by auto
  have blpos: "0 < bit_length ?m" using m by (rule bit_length_pos)
  have e: "ilog2 x = - int (bit_length ?m)"
    using False by (simp add: ilog2_def)
  have c0: "0 \<le> ?c" and c1: "1 \<le> nat ?c" using c by linarith+
  have "rat_of_nat (nat ?c - 1) = rat_of_nat (nat ?c) - rat_of_nat 1"
    using c1 by (rule of_nat_diff)
  moreover have "rat_of_nat (nat ?c) = of_int ?c" using c0 by (rule of_nat_nat)
  ultimately have mc: "rat_of_nat ?m = of_int ?c - 1" by simp
  have "Suc ?m \<le> 2 ^ bit_length ?m" using b(2) by (rule Suc_leI)
  then have "rat_of_nat (Suc ?m) \<le> rat_of_nat (2 ^ bit_length ?m)" by (rule of_nat_mono)
  moreover have "rat_of_nat (2 ^ bit_length ?m) = 2 ^ bit_length ?m" by simp
  moreover have "rat_of_nat (Suc ?m) = rat_of_nat ?m + 1" by simp
  ultimately have "of_int ?c \<le> (2::rat) ^ bit_length ?m" using mc by linarith
  moreover have "1 / x \<le> of_int ?c" by linarith
  ultimately have "1 / x \<le> 2 ^ bit_length ?m" by linarith
  then have lo: "1 / 2 ^ bit_length ?m \<le> x"
    using assms by (simp add: field_simps)
  have "rat_of_nat (2 ^ (bit_length ?m - 1)) \<le> rat_of_nat ?m" using b(1) by (rule of_nat_mono)
  moreover have "rat_of_nat (2 ^ (bit_length ?m - 1)) = 2 ^ (bit_length ?m - 1)" by simp
  ultimately have "(2::rat) ^ (bit_length ?m - 1) \<le> of_int ?c - 1" using mc by linarith
  moreover have "of_int ?c - 1 < 1 / x" by linarith
  ultimately have "(2::rat) ^ (bit_length ?m - 1) < 1 / x" by linarith
  then have hi: "x < 1 / 2 ^ (bit_length ?m - 1)"
    using assms by (simp add: field_simps)
  have "pow2 (- int (bit_length ?m) + 1) = 1 / 2 ^ (bit_length ?m - 1)"
    using blpos by (cases "bit_length ?m") (simp_all add: pow2_def)
  moreover have "pow2 (- int (bit_length ?m)) = 1 / 2 ^ bit_length ?m"
    using blpos by (simp add: pow2_def)
  ultimately show ?thesis using lo hi by (simp add: e)
qed

lemma round_half_even_error: "\<bar>of_int (round_half_even x) - x\<bar> \<le> 1 / 2"
proof -
  have "of_int \<lfloor>x\<rfloor> \<le> x" "x < of_int \<lfloor>x\<rfloor> + 1" by linarith+
  then show ?thesis
    by (auto simp: round_half_even_def Let_def)
qed

lemma fl_round_error:
  assumes "\<bar>x\<bar> < 2 ^ 1023"
  shows "\<exists>r. fl_round x = Finite r \<and> \<bar>r - x\<bar> \<le> \<bar>x\<bar> / 2 ^ 53 + 1 / 2 ^ 1075"
proof (cases "x = 0")
  case True
  then show ?thesis by (simp add: fl_round_def)
next
  case False
  define a where "a = \<bar>x\<bar>"
  define L where "L = ilog2 a"
  define e where "e = max L (- 1022)"
  define q where "q = pow2 (e - 52)"
  define m where "m = round_half_even (x / q)"
  define r where "r = of_int m * q"
  have apos: "0 < a" using False by (simp add: a_def)
  have qpos: "0 < q" by (simp add: q_def pow2_powi)
  have L: "2 powi L \<le> a" "a < 2 powi (L + 1)"
    using ilog2_bounds [OF apos] by (simp_all add: L_def pow2_powi)
  have err: "\<bar>r - x\<bar> \<le> q / 2"
  proof -
    have "r - x = q * (of_int m - x / q)" using qpos by (simp add: r_def field_simps)
    then have "\<bar>r - x\<bar> = q * \<bar>of_int m - x / q\<bar>" using qpos by (simp add: abs_mult)
    also have "\<dots> \<le> q * (1 / 2)"
      using round_half_even_error [of "x / q"] qpos
      by (intro mult_left_mono) (simp_all add: m_def)
    finally show ?thesis by simp
  qed
  have q2: "q / 2 = 2 powi (e - 53)"
  proof -
    have "(2::rat) powi (e - 53) = 2 powi ((e - 52) + (- 1))" by simp
    also have "\<dots> = 2 powi (e - 52) * 2 powi (- 1)" by (rule power_int_add) simp
    finally show ?thesis by (simp add: q_def pow2_powi)
  qed
  have "(2::rat) powi L < 2 powi 1023" using L(1) assms by (simp add: a_def)
  then have Lle: "L < 1023" by (rule power_int_le_imp_less_exp [rotated]) simp_all
  then have ele: "e \<le> 1022" by (simp add: e_def)
  have q2le: "q / 2 \<le> a / 2 ^ 53 + 1 / 2 ^ 1075"
  proof (cases "- 1022 \<le> L")
    case True
    then have "e = L" by (simp add: e_def)
    then have "q / 2 = 2 powi (L + (- 53))" using q2 by simp
    also have "\<dots> = 2 powi L * 2 powi (- 53)" by (rule power_int_add) simp
    also have "\<dots> = 2 powi L / 2 ^ 53" by (simp add: power_int_minus_divide)
    also have "\<dots> \<le> a / 2 ^ 53" using L(1) by (simp add: divide_right_mono)
    finally show ?thesis by simp
  next
    case False
    then have "e = - 1022" by (simp add: e_def)
    then have "q / 2 = 2 powi (- 1075)" using q2 by simp
    also have "\<dots> = 1 / 2 ^ 1075" by (simp add: power_int_minus_divide)
    finally show ?thesis using apos by simp
  qed
  have "q / 2 \<le> 2 powi 969"
    unfolding q2 using ele by (intro power_int_increasing) simp_all
  then have "q / 2 \<le> 2 ^ 969" by simp
  moreover have "\<bar>r\<bar> \<le> \<bar>x\<bar> + \<bar>r - x\<bar>" by linarith
  moreover have "(2::rat) ^ 969 \<le> 2 ^ 1023" by (rule power_increasing) simp_all
  moreover have "(2::rat) ^ 1024 = 2 * 2 ^ 1023" by simp
  ultimately have fin: "\<bar>r\<bar> < 2 ^ 1024" using assms err by linarith
  have "fl_round x = Finite r"
    using False fin unfolding fl_round_def Let_def r_def m_def q_def e_def L_def a_def
    by (simp only: if_False not_le [symmetric])
  then show ?thesis using err q2le by (auto simp: a_def)
qed

lemma ilog2_unique:
  assumes "pow2 e \<le> x" and "x < pow2 (e + 1)"
  shows "ilog2 x = e"
proof -
  have "0 < pow2 e" by (simp add: pow2_powi)
  with assms(1) have pos: "0 < x" by linarith
  from ilog2_bounds [OF pos]
  have L: "2 powi (ilog2 x) \<le> x" "x < 2 powi (ilog2 x + 1)" by (simp_all add: pow2_powi)
  from assms have E: "2 powi e \<le> x" "x < 2 powi (e + 1)" by (simp_all add: pow2_powi)
  have "\<not> e + 1 \<le> ilog2 x"
  proof
    assume "e + 1 \<le> ilog2 x"
    then have "(2::rat) powi (e + 1) \<le> 2 powi (ilog2 x)" by (rule power_int_increasing) simp
    with L(1) E(2) show False by linarith
  qed
  moreover have "\<not> ilog2 x + 1 \<le> e"
  proof
    assume "ilog2 x + 1 \<le> e"
    then have "(2::rat) powi (ilog2 x + 1) \<le> 2 powi e" by (rule power_int_increasing) simp
    with L(2) E(1) show False by linarith
  qed
  ultimately show ?thesis by linarith
qed

lemma round_half_even_near:
  assumes "\<bar>of_int m - x\<bar> < 1 / 2"
  shows "round_half_even x = m"
proof -
  define f where "f = \<lfloor>x\<rfloor>"
  have fx: "of_int f \<le> x" "x < of_int f + 1" unfolding f_def by linarith+
  from assms have mx: "of_int m - 1 / 2 < x" "x < of_int m + 1 / 2" by linarith+
  show ?thesis
  proof (cases "x - of_int f < 1 / 2")
    case True
    have "rat_of_int m < of_int (f + 1)" using mx True by simp
    then have "m < f + 1" by (simp only: of_int_less_iff)
    moreover have "rat_of_int f < of_int (m + 1)" using fx mx by simp
    then have "f < m + 1" by (simp only: of_int_less_iff)
    ultimately have "f = m" by linarith
    then show ?thesis using True by (simp add: round_half_even_def Let_def f_def)
  next
    case False
    have "rat_of_int f < of_int m" using mx False by simp
    then have "f < m" by (simp only: of_int_less_iff)
    moreover have "rat_of_int m < of_int (f + 2)" using fx mx by simp
    then have "m < f + 2" by (simp only: of_int_less_iff)
    ultimately have m: "m = f + 1" by linarith
    with mx have "1 / 2 < x - of_int f" by simp
    then show ?thesis using m by (simp add: round_half_even_def Let_def f_def)
  qed
qed

lemma round_half_even_tie:
  assumes "\<bar>of_int m - x\<bar> = 1 / 2" and "even m"
  shows "round_half_even x = m"
proof -
  define f where "f = \<lfloor>x\<rfloor>"
  have fx: "of_int f \<le> x" "x < of_int f + 1" unfolding f_def by linarith+
  from assms(1) consider "x = of_int m + 1 / 2" | "x = of_int m - 1 / 2" by linarith
  then show ?thesis
  proof cases
    case 1
    have "rat_of_int m < of_int (f + 1)" using fx 1 by simp
    then have "m < f + 1" by (simp only: of_int_less_iff)
    moreover have "rat_of_int f < of_int (m + 1)" using fx 1 by simp
    then have "f < m + 1" by (simp only: of_int_less_iff)
    ultimately have "f = m" by linarith
    then show ?thesis using 1 assms(2) by (simp add: round_half_even_def Let_def f_def)
  next
    case 2
    have "rat_of_int (m - 1) < of_int (f + 1)" using fx 2 by simp
    then have "m - 1 < f + 1" by (simp only: of_int_less_iff)
    moreover have "rat_of_int f < of_int m" using fx 2 by simp
    then have "f < m" by (simp only: of_int_less_iff)
    ultimately have f: "f = m - 1" by linarith
    then have "odd f" using assms(2) by simp
    moreover have "x - of_int f = 1 / 2" using 2 f by simp
    ultimately show ?thesis using f by (simp add: round_half_even_def Let_def f_def)
  qed
qed

lemma fl_round_eqI:
  assumes "pow2 e \<le> \<bar>x\<bar>" and "\<bar>x\<bar> < pow2 (e + 1)" and "- 1022 \<le> e"
    and "round_half_even (x / pow2 (e - 52)) = m"
    and "\<bar>of_int m * pow2 (e - 52)\<bar> < 2 ^ 1024"
  shows "fl_round x = Finite (of_int m * pow2 (e - 52))"
proof -
  have "0 < pow2 e" by (simp add: pow2_powi)
  with assms(1) have "x \<noteq> 0" by auto
  moreover have "ilog2 \<bar>x\<bar> = e" using assms(1,2) by (rule ilog2_unique)
  moreover have "max e (- 1022) = e" using assms(3) by simp
  ultimately show ?thesis
    using assms(4,5) by (simp add: fl_round_def Let_def)
qed

text \<open>
  The three roundings between micrometers and device units: the product, the int made
  a float again, and the quotient.
\<close>

lemma round_trip_error:
  assumes u: "1 \<le> u" "u \<le> 100" and v: "\<bar>v * u\<bar> \<le> 2 ^ 50"
  shows "\<exists>p a x. fl_round (v * u) = Finite p \<and>
           fl_round (of_int (round_half_even p)) = Finite a \<and>
           fl_round (a / u) = Finite x \<and> \<bar>x - v\<bar> \<le> 1 / u"
proof -
  define t :: rat where "t = 1 / 2 ^ 1075"
  define d :: rat where "d = 1 / 2 ^ 53"
  define B :: rat where "B = 2 ^ 50"
  have t: "0 \<le> t" "t \<le> d" by (simp_all add: t_def d_def)
  have d: "0 \<le> d" "1000 * d \<le> 1" by (simp_all add: d_def)
  have big: "B + 2 < 2 ^ 1023" by (simp add: B_def)
  have Bd: "B * d = 1 / 8" by (simp add: B_def d_def)
  have err: "\<exists>r. fl_round y = Finite r \<and> \<bar>r - y\<bar> \<le> \<bar>y\<bar> * d + t" if "\<bar>y\<bar> \<le> B + 1" for y
  proof -
    from that big have "\<bar>y\<bar> < 2 ^ 1023" by linarith
    from fl_round_error [OF this] show ?thesis by (simp add: t_def d_def)
  qed
  have vB: "\<bar>v * u\<bar> \<le> B" using v by (simp add: B_def)
  then have "\<bar>v * u\<bar> \<le> B + 1" by linarith
  from err [OF this] obtain p
    where p: "fl_round (v * u) = Finite p" and e1: "\<bar>p - v * u\<bar> \<le> \<bar>v * u\<bar> * d + t"
    by blast
  have "\<bar>v * u\<bar> * d \<le> B * d" using vB d(1) by (rule mult_right_mono)
  with e1 Bd have e1': "\<bar>p - v * u\<bar> \<le> 1 / 8 + t" by linarith
  define n where "n = round_half_even p"
  have en: "\<bar>of_int n - p\<bar> \<le> 1 / 2" unfolding n_def by (rule round_half_even_error)
  have nb: "\<bar>rat_of_int n\<bar> \<le> B + 5 / 8 + t" using en e1' vB by linarith
  then have "\<bar>rat_of_int n\<bar> \<le> B + 1" using t d by linarith
  from err [OF this] obtain a
    where a: "fl_round (of_int n) = Finite a"
      and e2: "\<bar>a - of_int n\<bar> \<le> \<bar>rat_of_int n\<bar> * d + t"
    by blast
  have "\<bar>rat_of_int n\<bar> * d \<le> (B + 5 / 8 + t) * d" using nb d(1) by (rule mult_right_mono)
  also have "\<dots> = 1 / 8 + (5 / 8 + t) * d" using Bd by (simp add: algebra_simps)
  also have "(5 / 8 + t) * d \<le> 1 * d" using t d by (intro mult_right_mono) linarith+
  finally have e2': "\<bar>a - of_int n\<bar> \<le> 1 / 8 + d + t" using e2 by linarith
  have ab: "\<bar>a\<bar> \<le> B + 1" using e2' nb t d by linarith
  have upos: "0 < u" using u by linarith
  have "\<bar>a / u\<bar> = \<bar>a\<bar> / u" using upos by simp
  also have "\<dots> \<le> \<bar>a\<bar> / 1" using u by (intro divide_left_mono) simp_all
  finally have au: "\<bar>a / u\<bar> \<le> B + 1" using ab by simp
  from err [OF this] obtain x
    where x: "fl_round (a / u) = Finite x" and e3: "\<bar>x - a / u\<bar> \<le> \<bar>a / u\<bar> * d + t"
    by blast
  have "u * \<bar>x - a / u\<bar> \<le> u * (\<bar>a / u\<bar> * d + t)"
    using e3 upos by (intro mult_left_mono) simp_all
  moreover have "u * \<bar>x - a / u\<bar> = \<bar>u * (x - a / u)\<bar>" using upos by (simp add: abs_mult)
  moreover have "u * (x - a / u) = u * x - a" using upos by (simp add: field_simps)
  moreover have "u * (\<bar>a / u\<bar> * d + t) = \<bar>a\<bar> * d + u * t"
    using upos by (simp add: field_simps)
  ultimately have s1: "\<bar>u * x - a\<bar> \<le> \<bar>a\<bar> * d + u * t" by simp
  have "\<bar>a\<bar> * d \<le> (B + 1) * d" using ab d(1) by (rule mult_right_mono)
  also have "\<dots> = 1 / 8 + d" using Bd by (simp add: algebra_simps)
  finally have s2: "\<bar>a\<bar> * d \<le> 1 / 8 + d" .
  have s3: "u * t \<le> 100 * t" using u(2) t(1) by (rule mult_right_mono)
  have "v * u = u * v" by simp
  then have "\<bar>u * x - u * v\<bar> \<le> \<bar>u * x - a\<bar> + \<bar>a - of_int n\<bar> + \<bar>of_int n - p\<bar> + \<bar>p - v * u\<bar>"
    by linarith
  then have tot: "\<bar>u * x - u * v\<bar> \<le> 1"
    using s1 s2 s3 e2' en e1' t d by linarith
  have "u * \<bar>x - v\<bar> = \<bar>u * (x - v)\<bar>" using upos by (simp add: abs_mult)
  also have "u * (x - v) = u * x - u * v" by (simp add: algebra_simps)
  finally have "u * \<bar>x - v\<bar> \<le> 1" using tot by simp
  then have "\<bar>x - v\<bar> \<le> 1 / u" using upos by (simp add: field_simps)
  with p a x show ?thesis unfolding n_def by blast
qed

subsection \<open>Micrometers and device units\<close>

lemma fl_round_example_product: "fl_round 12778039738800775 = Finite 12778039738800776"
proof -
  have "round_half_even (12778039738800775 / pow2 (53 - 52)) = 6389019869400388"
    by (rule round_half_even_tie) (simp_all add: pow2_def)
  then have "fl_round 12778039738800775 = Finite (of_int 6389019869400388 * pow2 (53 - 52))"
    by (intro fl_round_eqI) (simp_all add: pow2_def)
  then show ?thesis by (simp add: pow2_def)
qed

lemma fl_round_example_int: "fl_round 12778039738800776 = Finite 12778039738800776"
proof -
  have "round_half_even (12778039738800776 / pow2 (53 - 52)) = 6389019869400388"
    by (rule round_half_even_near) (simp_all add: pow2_def)
  then have "fl_round 12778039738800776 = Finite (of_int 6389019869400388 * pow2 (53 - 52))"
    by (intro fl_round_eqI) (simp_all add: pow2_def)
  then show ?thesis by (simp add: pow2_def)
qed

lemma fl_round_example_quotient:
  "fl_round (3194509934700194 / 25) = Finite (8177945432832497 / 64)"
proof -
  have "round_half_even ((3194509934700194 / 25) / pow2 (46 - 52)) = 8177945432832497"
    by (rule round_half_even_near) (simp_all add: pow2_def)
  then have "fl_round (3194509934700194 / 25) =
      Finite (of_int 8177945432832497 * pow2 (46 - 52))"
    by (intro fl_round_eqI) (simp_all add: pow2_def)
  then show ?thesis by (simp add: pow2_def)
qed

text \<open>
  C8, as the claim states it, fails for large values: floats from \<open>2 ^ 46\<close> on are more
  than a hundredth apart. The float 127780397388007.75, with 100.0 units per micrometer,
  becomes 12778039738800776 device units, and these come back as
  127780397388007.765625, which is 1/64 away, more than 1/100.
\<close>

theorem device_units_round_trip_counterexample:
  "device_units (PFloat (Finite (511121589552031 / 4))) (ex_rfa True (ex_port [])) =
     Inr 12778039738800776 \<and>
   py_truediv_float 12778039738800776 (Finite 100) = Inr (Finite (8177945432832497 / 64)) \<and>
   \<not> \<bar>8177945432832497 / 64 - 511121589552031 / 4\<bar> \<le> (1::rat) / 100"
proof -
  have "round_half_even 12778039738800776 = 12778039738800776"
    by (rule round_half_even_near) simp
  then show ?thesis
    by (simp add: device_units_def ex_rfa_def py_truediv_float_def float_of_int_def
        fl_round_example_product fl_round_example_int fl_round_example_quotient)
qed

text \<open>
  C8, amended: for every finite micrometer value \<open>v\<close> with \<open>\<bar>v * u\<bar> \<le> 2 ^ 50\<close>, where the
  units per micrometer \<open>u\<close> are between 1 and 100 (the driver sets 10.0 or 100.0), the
  conversion to device units is \<^verbatim>\<open>round\<close> of the float product \<^verbatim>\<open>v * u\<close> (the nearest
  int, ties to even), and the division of that int by \<open>u\<close> gives a float within \<open>1 / u\<close>
  of \<open>v\<close>.
\<close>

theorem device_units_round_trip:
  assumes "units_per_um s = Some (Finite u)" and "1 \<le> u" and "u \<le> 100"
    and "\<bar>v * u\<bar> \<le> 2 ^ 50"
  shows "\<exists>p n x. py_mul_float (PFloat (Finite v)) (Finite u) = Inr (Finite p) \<and>
           py_round (Finite p) = Inr n \<and>
           device_units (PFloat (Finite v)) s = Inr n \<and>
           py_truediv_float n (Finite u) = Inr (Finite x) \<and>
           \<bar>x - v\<bar> \<le> 1 / u"
proof -
  from round_trip_error [OF assms(2-4)] obtain p a x
    where p: "fl_round (v * u) = Finite p"
      and a: "fl_round (of_int (round_half_even p)) = Finite a"
      and x: "fl_round (a / u) = Finite x" and e: "\<bar>x - v\<bar> \<le> 1 / u"
    by blast
  have "u \<noteq> 0" using assms(2) by auto
  then have "py_truediv_float (round_half_even p) (Finite u) = Inr (Finite x)"
    using a x by (simp add: py_truediv_float_def float_of_int_def)
  moreover have "device_units (PFloat (Finite v)) s = Inr (round_half_even p)"
    using assms(1) p by (simp add: device_units_def)
  moreover have "py_mul_float (PFloat (Finite v)) (Finite u) = Inr (Finite p)"
    using p by simp
  ultimately show ?thesis using e by auto
qed

theorem device_units_round_trip_witness:
  "\<exists>p n x. py_mul_float (PFloat (Finite (1234567 / 1000))) (Finite 100) = Inr (Finite p) \<and>
           py_round (Finite p) = Inr n \<and>
           device_units (PFloat (Finite (1234567 / 1000))) (ex_rfa True (ex_port [])) = Inr n \<and>
           py_truediv_float n (Finite 100) = Inr (Finite x) \<and>
           \<bar>x - 1234567 / 1000\<bar> \<le> 1 / 100"
  using device_units_round_trip [of "ex_rfa True (ex_port [])" 100 "1234567 / 1000"]
  by (simp add: ex_rfa_def)

subsection \<open>The cached position\<close>

lemma get_position_effect:
  assumes "ser s = Some t" and "is_open t"
  shows "\<exists>t'. ser (snd (get_position s)) = Some t' \<and> written t' = written t @ [''WZ'' @ [CR]]"
proof -
  have "list_all is_ascii ''WZ''" by (simp add: is_ascii_def)
  from query_effect [OF assms this] obtain r t' dbg
    where q: "query ''WZ'' s = (r, s\<lparr>ser := Some t', logger := logger s @ dbg\<rparr>)"
      and w: "written t' = written t @ [''WZ'' @ [CR]]"
    by blast
  have "ser (snd (get_position s)) = Some t'"
    by (simp add: get_position_def q warn_unexpected_def log_msg_def
        split: sum.splits option.splits)
  with w show ?thesis by blast
qed

text \<open>
  C5: when the flag \<^verbatim>\<open>_moved_since_last_read\<close> is false and the cache holds \<open>p\<close>, \<^verbatim>\<open>pos\<close>
  returns \<open>p\<close> and leaves the whole state, the port included, as it was. When the flag is
  true, \<^verbatim>\<open>pos\<close> is \<^verbatim>\<open>get_position\<close>: on an open port it writes the command WZ exactly
  once, and when the reply is an integer \<open>n\<close> it returns \<open>n\<close> divided by the units per
  micrometer, stores it and clears the flag.
\<close>

theorem pos_cached_or_read:
  "(moved_since_last_read s = Some False \<and> cached_pos s = Some p \<longrightarrow> pos s = (Inr p, s)) \<and>
   (moved_since_last_read s = Some True \<longrightarrow> pos s = get_position s) \<and>
   (moved_since_last_read s = Some True \<and> ser s = Some t \<and> is_open t \<longrightarrow>
      (\<exists>t'. ser (snd (pos s)) = Some t' \<and> written t' = written t @ [''WZ'' @ [CR]])) \<and>
   (moved_since_last_read s = Some True \<and> query ''WZ'' s = (Inr (Some r), s1) \<and>
    py_int_str r = Some n \<and> units_per_um s = Some u \<and> py_truediv_float n u = Inr x \<longrightarrow>
      pos s = (Inr (PFloat x),
               s1\<lparr>cached_pos := Some (PFloat x), moved_since_last_read := Some False\<rparr>))"
  using get_position_effect [of s t] query_keeps_fields(1) [of "''WZ''" s "Inr (Some r)" s1]
  by (auto simp: pos_def get_position_def microns_def)

lemma fl_round_0: "fl_round 0 = Finite 0"
  by (simp add: fl_round_def)

lemma fl_round_17: "fl_round 17 = Finite 17"
proof -
  have "round_half_even (17 / pow2 (4 - 52)) = 4785074604081152"
    by (rule round_half_even_near) (simp_all add: pow2_def)
  then have "fl_round 17 = Finite (of_int 4785074604081152 * pow2 (4 - 52))"
    by (intro fl_round_eqI) (simp_all add: pow2_def)
  then show ?thesis by (simp add: pow2_def)
qed

lemma fl_round_1700: "fl_round 1700 = Finite 1700"
proof -
  have "round_half_even (1700 / pow2 (10 - 52)) = 7476679068876800"
    by (rule round_half_even_near) (simp_all add: pow2_def)
  then have "fl_round 1700 = Finite (of_int 7476679068876800 * pow2 (10 - 52))"
    by (intro fl_round_eqI) (simp_all add: pow2_def)
  then show ?thesis by (simp add: pow2_def)
qed

lemmas parse_eval =
  py_int_str_def strip_def is_space_def is_digit_def digit_val_def
  py_truediv_float_def float_of_int_def fl_round_0 fl_round_17 fl_round_1700

theorem pos_cached_or_read_witness:
  "pos (ex_rfa False (ex_port [])) = (Inr (PFloat (Finite 0)), ex_rfa False (ex_port [])) \<and>
   fst (pos (ex_rfa True (ex_port ['':A 1700 '' @ [CR]]))) = Inr (PFloat (Finite 17)) \<and>
   (\<exists>t'. ser (snd (pos (ex_rfa True (ex_port ['':A 1700 '' @ [CR]])))) = Some t' \<and>
         written t' = [''WZ'' @ [CR]])"
proof -
  note clean = pos_cached_or_read [of "ex_rfa False (ex_port [])" "PFloat (Finite 0)"]
  note dirty = pos_cached_or_read [of "ex_rfa True (ex_port ['':A 1700 '' @ [CR]])" _
      "ex_port ['':A 1700 '' @ [CR]]" "''1700''"
      "snd (query ''WZ'' (ex_rfa True (ex_port ['':A 1700 '' @ [CR]])))" 1700 "Finite 100"
      "Finite 17"]
  have "pos (ex_rfa False (ex_port [])) = (Inr (PFloat (Finite 0)), ex_rfa False (ex_port []))"
    using clean [THEN conjunct1] by (simp add: ex_rfa_def)
  moreover have "fst (pos (ex_rfa True (ex_port ['':A 1700 '' @ [CR]]))) = Inr (PFloat (Finite 17))"
    using dirty [THEN conjunct2, THEN conjunct2, THEN conjunct2]
    by (simp add: query_eval parse_eval)
  moreover have "\<exists>t'. ser (snd (pos (ex_rfa True (ex_port ['':A 1700 '' @ [CR]])))) = Some t' \<and>
         written t' = [''WZ'' @ [CR]]"
    using dirty [THEN conjunct2, THEN conjunct2, THEN conjunct1]
    by (simp add: ex_rfa_def ex_port_def)
  ultimately show ?thesis by simp
qed

text \<open>
  A reply that is not an integer: \<^verbatim>\<open>get_position\<close> logs the warning and returns
  \<^verbatim>\<open>None\<close>; the cache and the flag stay as they were.
\<close>

lemma get_position_bad_reply:
  "get_position (ex_rfa True (ex_port ['':A 17'' @ [CHR 0x1F] @ '' '' @ [CR]])) =
     (Inr PNone,
      (ex_rfa True (ex_port []))
        \<lparr>ser := Some ((ex_port [])\<lparr>written := [''WZ'' @ [CR]]\<rparr>),
          logger := [(DEBUG, '':A 17'' @ [CHR 0x1F] @ '' '', []),
                     (WARNING, ''unexpected message: 17'' @ [CHR 0x1F], [])]\<rparr>)"
  by (simp add: get_position_def microns_def warn_unexpected_def log_msg_def query_eval parse_eval)

subsection \<open>The setters of speed and ramp slope\<close>

text \<open>The decimal text of an int is ASCII.\<close>

lemma digits_of_ascii: "list_all is_ascii (digits_of n)"
proof (induction n rule: digits_of.induct)
  case (1 n)
  have d: "is_ascii (''0123456789'' ! k)" if "k < 10" for k
  proof -
    have "\<forall>c \<in> set ''0123456789''. is_ascii c" by (simp add: is_ascii_def)
    moreover have "''0123456789'' ! k \<in> set ''0123456789''"
      using that by (intro nth_mem) simp
    ultimately show ?thesis by blast
  qed
  show ?case
  proof (cases "n < 10")
    case True
    then show ?thesis by (subst digits_of.simps) (simp add: d)
  next
    case False
    with "1.IH" show ?thesis by (subst digits_of.simps) (simp add: d)
  qed
qed

lemma py_str_int_ascii: "list_all is_ascii (py_str_int i)"
  by (simp add: py_str_int_def digits_of_ascii is_ascii_def)

lemma logged_query_effect:
  assumes "ser s = Some t" and "is_open t" and "list_all is_ascii command"
  shows "\<exists>r t' dbg.
           (case query command (s\<lparr>logger := logger s @ w\<rparr>) of
              (Inl e, s1) \<Rightarrow> (Inl e, s1)
            | (Inr _, s1) \<Rightarrow> (Inr (), s1)) =
             (r, s\<lparr>ser := Some t', logger := logger s @ w @ dbg\<rparr>) \<and>
           written t' = written t @ [command @ [CR]] \<and> (\<forall>x \<in> set dbg. fst x = DEBUG)"
proof -
  from assms have "ser (s\<lparr>logger := logger s @ w\<rparr>) = Some t" by simp
  from query_effect [OF this assms(2,3)] obtain r t' dbg
    where q: "query command (s\<lparr>logger := logger s @ w\<rparr>) =
               (r, s\<lparr>ser := Some t', logger := logger s @ w @ dbg\<rparr>)"
      and w: "written t' = written t @ [command @ [CR]]" "\<forall>x \<in> set dbg. fst x = DEBUG"
    by auto
  show ?thesis
  proof (cases r)
    case (Inl e)
    with q w show ?thesis
      by (intro exI [of _ "Inl e"] exI [of _ t'] exI [of _ dbg]) simp
  next
    case (Inr y)
    with q w show ?thesis
      by (intro exI [of _ "Inr ()"] exI [of _ t'] exI [of _ dbg]) simp
  qed
qed

lemma maxspeed_set_eq:
  "maxspeed_set (PInt v) s =
     (case query (''speed '' @ py_str_int (max 50 (min 60000 v)))
             (s\<lparr>logger := logger s @
                   (if v < 50 then [(WARNING, ''minimum speed is 50'', [])]
                    else if 60000 < v then [(WARNING, ''maximum speed is 60000'', [])]
                    else [])\<rparr>) of
        (Inl e, s1) \<Rightarrow> (Inl e, s1)
      | (Inr _, s1) \<Rightarrow> (Inr (), s1))"
  by (simp add: maxspeed_set_def log_msg_def max_def min_def)

lemma minspeed_set_eq:
  "minspeed_set (PInt v) s =
     (case query (''minspeed '' @ py_str_int (max 50 (min 60000 v)))
             (s\<lparr>logger := logger s @
                   (if v < 50 then [(WARNING, ''minimum speed is 50'', [])]
                    else if 60000 < v then [(WARNING, ''maximum speed is 60000'', [])]
                    else [])\<rparr>) of
        (Inl e, s1) \<Rightarrow> (Inl e, s1)
      | (Inr _, s1) \<Rightarrow> (Inr (), s1))"
  by (simp add: minspeed_set_def log_msg_def max_def min_def)

lemma rampslope_set_eq:
  "rampslope_set (PInt v) s =
     (case query (''rampslope '' @ py_str_int (max 1 (min 255 v)))
             (s\<lparr>logger := logger s @
                   (if v < 1 then [(WARNING, ''minimum acceleration is 1'', [])]
                    else if 255 < v then [(WARNING, ''maximum acceleration is  255'', [])]
                    else [])\<rparr>) of
        (Inl e, s1) \<Rightarrow> (Inl e, s1)
      | (Inr _, s1) \<Rightarrow> (Inr (), s1))"
  by (simp add: rampslope_set_def log_msg_def max_def min_def)

text \<open>
  C6: for every int \<open>v\<close>, on an open port, the setters of \<^verbatim>\<open>maxspeed\<close>, \<^verbatim>\<open>minspeed\<close> and
  \<^verbatim>\<open>rampslope\<close> write one command whose argument is \<open>v\<close> clamped to the range (50 to 60000,
  and 1 to 255): the nearest bound when \<open>v\<close> is out of range, \<open>v\<close> itself otherwise. A warning
  is logged exactly when \<open>v\<close> is out of range; the rest of the log are debug records of
  \<^verbatim>\<open>query\<close>. The witness has the inputs of the claim: 10 goes out as 50, 999999 as 60000,
  0 as 1 and 300 as 255.
\<close>

theorem setters_clamp:
  assumes "ser s = Some t" and "is_open t"
  shows "(\<exists>r t' dbg.
            maxspeed_set (PInt v) s =
              (r, s\<lparr>ser := Some t',
                    logger := logger s @
                      (if v < 50 then [(WARNING, ''minimum speed is 50'', [])]
                       else if 60000 < v then [(WARNING, ''maximum speed is 60000'', [])]
                       else []) @ dbg\<rparr>) \<and>
            written t' = written t @ [(''speed '' @ py_str_int (max 50 (min 60000 v))) @ [CR]] \<and>
            (\<forall>x \<in> set dbg. fst x = DEBUG)) \<and>
         (\<exists>r t' dbg.
            minspeed_set (PInt v) s =
              (r, s\<lparr>ser := Some t',
                    logger := logger s @
                      (if v < 50 then [(WARNING, ''minimum speed is 50'', [])]
                       else if 60000 < v then [(WARNING, ''maximum speed is 60000'', [])]
                       else []) @ dbg\<rparr>) \<and>
            written t' = written t @ [(''minspeed '' @ py_str_int (max 50 (min 60000 v))) @ [CR]] \<and>
            (\<forall>x \<in> set dbg. fst x = DEBUG)) \<and>
         (\<exists>r t' dbg.
            rampslope_set (PInt v) s =
              (r, s\<lparr>ser := Some t',
                    logger := logger s @
                      (if v < 1 then [(WARNING, ''minimum acceleration is 1'', [])]
                       else if 255 < v then [(WARNING, ''maximum acceleration is  255'', [])]
                       else []) @ dbg\<rparr>) \<and>
            written t' = written t @ [(''rampslope '' @ py_str_int (max 1 (min 255 v))) @ [CR]] \<and>
            (\<forall>x \<in> set dbg. fst x = DEBUG))"
  unfolding maxspeed_set_eq minspeed_set_eq rampslope_set_eq
  by (intro conjI logged_query_effect [OF assms]) (simp_all add: py_str_int_ascii is_ascii_def)

lemmas str_eval = py_str_int_def digits_of.simps

theorem setters_clamp_witness:
  "(\<exists>r t' dbg.
      maxspeed_set (PInt 10) (ex_rfa False (ex_port [])) =
        (r, (ex_rfa False (ex_port []))
              \<lparr>ser := Some t', logger := [(WARNING, ''minimum speed is 50'', [])] @ dbg\<rparr>) \<and>
      written t' = [''speed 50'' @ [CR]] \<and> (\<forall>x \<in> set dbg. fst x = DEBUG)) \<and>
   (\<exists>r t' dbg.
      maxspeed_set (PInt 999999) (ex_rfa False (ex_port [])) =
        (r, (ex_rfa False (ex_port []))
              \<lparr>ser := Some t', logger := [(WARNING, ''maximum speed is 60000'', [])] @ dbg\<rparr>) \<and>
      written t' = [''speed 60000'' @ [CR]] \<and> (\<forall>x \<in> set dbg. fst x = DEBUG)) \<and>
   (\<exists>r t' dbg.
      maxspeed_set (PInt 1234) (ex_rfa False (ex_port [])) =
        (r, (ex_rfa False (ex_port []))\<lparr>ser := Some t', logger := dbg\<rparr>) \<and>
      written t' = [''speed 1234'' @ [CR]] \<and> (\<forall>x \<in> set dbg. fst x = DEBUG)) \<and>
   (\<exists>r t' dbg.
      rampslope_set (PInt 0) (ex_rfa False (ex_port [])) =
        (r, (ex_rfa False (ex_port []))
              \<lparr>ser := Some t', logger := [(WARNING, ''minimum acceleration is 1'', [])] @ dbg\<rparr>) \<and>
      written t' = [''rampslope 1'' @ [CR]] \<and> (\<forall>x \<in> set dbg. fst x = DEBUG)) \<and>
   (\<exists>r t' dbg.
      rampslope_set (PInt 300) (ex_rfa False (ex_port [])) =
        (r, (ex_rfa False (ex_port []))
              \<lparr>ser := Some t', logger := [(WARNING, ''maximum acceleration is  255'', [])] @ dbg\<rparr>) \<and>
      written t' = [''rampslope 255'' @ [CR]] \<and> (\<forall>x \<in> set dbg. fst x = DEBUG))"
proof -
  have o: "ser (ex_rfa False (ex_port [])) = Some (ex_port [])" "is_open (ex_port [])"
    "written (ex_port []) = []" "logger (ex_rfa False (ex_port [])) = []"
    by (simp_all add: ex_rfa_def ex_port_def)
  note c = setters_clamp [OF o(1,2)]
  show ?thesis
    using c [of 10, THEN conjunct1] c [of 999999, THEN conjunct1] c [of 1234, THEN conjunct1]
      c [of 0, THEN conjunct2, THEN conjunct2] c [of 300, THEN conjunct2, THEN conjunct2]
    by (simp add: o(3,4) str_eval)
qed

subsection \<open>Parsing the resolution\<close>

lemma split_space_word: "CHR '' '' \<notin> set w \<Longrightarrow> split_space w = [w]"
  by (induction w) auto

lemma split_space_two:
  "CHR '' '' \<notin> set a \<Longrightarrow> CHR '' '' \<notin> set b \<Longrightarrow> split_space (a @ '' '' @ b) = [a, b]"
  by (induction a) (auto simp: split_space_word)

text \<open>
  C7: when the reply to RESOLUTION is an integer token, one space and a unit word,
  \<^verbatim>\<open>_get_resolution_info\<close> stores the integer as the smallest step, and sets the units per
  micrometer to 100.0 for HUNDREDTHS and to 10.0 for TENTHS; with any other word the
  units per micrometer stay as they were (not set, during a construction). The witness
  has the replies \<^verbatim>\<open>5 HUNDREDTHS\<close> and \<^verbatim>\<open>2 TENTHS\<close> of the claim, and one more word.
\<close>

theorem resolution_parsing:
  assumes "query ''RESOLUTION'' s = (Inr (Some (number @ '' '' @ word)), s1)"
    and "CHR '' '' \<notin> set number" and "CHR '' '' \<notin> set word"
    and "py_int_str number = Some n"
  shows "get_resolution_info s =
           (Inr (),
            s1\<lparr>units_per_um :=
                  (if word = ''HUNDREDTHS'' then Some (Finite 100)
                   else if word = ''TENTHS'' then Some (Finite 10)
                   else units_per_um s),
                smallest_step := Some (PInt n),
                logger := logger s1 @ [(INFO, ''Setting smallest_um_step to {}'', [PInt n])]\<rparr>)"
proof -
  have sp: "split_space (number @ CHR '' '' # word) = [number, word]"
    using split_space_two [OF assms(2,3)] by simp
  have u: "units_per_um s1 = units_per_um s"
    using query_keeps_fields(1) [OF assms(1)] .
  have "s1\<lparr>units_per_um := units_per_um s\<rparr> = s1" using u by simp
  then show ?thesis
    using assms(1,4) sp by (simp add: get_resolution_info_def log_msg_def)
qed

theorem resolution_parsing_witness:
  "(case get_resolution_info (ex_new (ex_port ['':A 5 HUNDREDTHS '' @ [CR]])) of
      (r, s) \<Rightarrow> r = Inr () \<and> units_per_um s = Some (Finite 100) \<and> smallest_step s = Some (PInt 5)) \<and>
   (case get_resolution_info (ex_new (ex_port ['':A 2 TENTHS '' @ [CR]])) of
      (r, s) \<Rightarrow> r = Inr () \<and> units_per_um s = Some (Finite 10) \<and> smallest_step s = Some (PInt 2)) \<and>
   (case get_resolution_info (ex_new (ex_port ['':A 3 THOUSANDTHS '' @ [CR]])) of
      (r, s) \<Rightarrow> r = Inr () \<and> units_per_um s = None \<and> smallest_step s = Some (PInt 3))"
proof -
  have "case get_resolution_info (ex_new (ex_port ['':A 5 HUNDREDTHS '' @ [CR]])) of
      (r, s) \<Rightarrow> r = Inr () \<and> units_per_um s = Some (Finite 100) \<and> smallest_step s = Some (PInt 5)"
    using resolution_parsing [of "ex_new (ex_port ['':A 5 HUNDREDTHS '' @ [CR]])" "''5''"
        "''HUNDREDTHS''" "snd (query ''RESOLUTION'' (ex_new (ex_port ['':A 5 HUNDREDTHS '' @ [CR]])))" 5]
    by (simp add: query_eval parse_eval)
  moreover have "case get_resolution_info (ex_new (ex_port ['':A 2 TENTHS '' @ [CR]])) of
      (r, s) \<Rightarrow> r = Inr () \<and> units_per_um s = Some (Finite 10) \<and> smallest_step s = Some (PInt 2)"
    using resolution_parsing [of "ex_new (ex_port ['':A 2 TENTHS '' @ [CR]])" "''2''"
        "''TENTHS''" "snd (query ''RESOLUTION'' (ex_new (ex_port ['':A 2 TENTHS '' @ [CR]])))" 2]
    by (simp add: query_eval parse_eval)
  moreover have "case get_resolution_info (ex_new (ex_port ['':A 3 THOUSANDTHS '' @ [CR]])) of
      (r, s) \<Rightarrow> r = Inr () \<and> units_per_um s = None \<and> smallest_step s = Some (PInt 3)"
    using resolution_parsing [of "ex_new (ex_port ['':A 3 THOUSANDTHS '' @ [CR]])" "''3''"
        "''THOUSANDTHS''" "snd (query ''RESOLUTION'' (ex_new (ex_port ['':A 3 THOUSANDTHS '' @ [CR]])))" 3]
    by (simp add: query_eval parse_eval)
  ultimately show ?thesis by simp
qed

subsection \<open>The smallest step\<close>



subsection \<open>What a construction leaves\<close>

text \<open>
  C2: the code does not do what the claim says. With no port and two listed ports of the
  given vendor and product id, \<^verbatim>\<open>__init__\<close> logs the warning, but the branch does not
  assign \<^verbatim>\<open>port\<close>: \<^verbatim>\<open>serial.Serial\<close> gets \<^verbatim>\<open>None\<close>, no port is opened, and the first
  \<^verbatim>\<open>query\<close> raises.
\<close>

theorem init_two_matches:
  "init None [CR] 2 (PInt 6790) (PInt 29987) (ex_world [''COM3'', ''COM4''] ex_replies) =
     (Inl PortNotOpenError,
      \<lparr>line_ending = [CR], timeout = 2, unit = ''um'',
       ser = Some \<lparr>port = None, is_open = False, written = [], rx = [], replies = []\<rparr>,
       units_per_um = None, smallest_step = None, cached_pos = None,
       moved_since_last_read = None,
       logger = [(WARNING, ''Multiple matches found. Using first one'', [])]\<rparr>)"
  by (simp add: init_def ex_world_def Serial_def query_def log_msg_def)

text \<open>A construction that opens a port and runs to its end leaves the flag set.\<close>

lemma init_ends_dirty:
  assumes "init port0 newline tmo vid0 pid0 w = (Inr (), s)" and "ser s \<noteq> None"
  shows "moved_since_last_read s = Some True"
  using assms
  by (auto simp: init_def Let_def log_msg_def
      split: option.splits pyval.splits if_splits sum.splits prod.splits)

lemmas init_eval =
  init_def ex_world_def ex_replies_def Serial_def log_msg_def reply_val_def
  get_resolution_info_def get_encoder_status_def set_encoder_status_def get_position_def
  microns_def pos_def

text \<open>
  C3: the code does not do what the claim says. After the position has been read,
  \<^verbatim>\<open>__init__\<close> sets \<^verbatim>\<open>_moved_since_last_read\<close> to true. With one listed port and a device
  at position 0, the construction ends with 0.0 in the cache and the flag set, and the
  first \<^verbatim>\<open>pos\<close> writes WZ again and returns what the device answers then.
\<close>

theorem init_leaves_cache_dirty:
  "(case init None [CR] 2 (PInt 6790) (PInt 29987) (ex_world [''COM3''] ex_replies) of
      (r, s) \<Rightarrow>
        r = Inr () \<and> cached_pos s = Some (PFloat (Finite 0)) \<and>
        moved_since_last_read s = Some True \<and>
        fst (pos s) = Inr (PFloat (Finite 17)) \<and>
        map_option written (ser (snd (pos s))) =
          map_option (\<lambda>t. written t @ [''WZ'' @ [CR]]) (ser s))"
  by (simp add: init_eval query_eval parse_eval)

subsection \<open>The command tokens\<close>

text \<open>
  C9: the code does not do what the claim says. \<^verbatim>\<open>halt\<close>, \<^verbatim>\<open>reset\<close>, \<^verbatim>\<open>zero\<close> and the
  accessors of speed, start speed and ramp slope write their tokens in lower case.
\<close>

theorem commands_lowercase:
  "map_option written (ser (snd (halt (ex_rfa False (ex_port []))))) = Some [''halt'' @ [CR]] \<and>
   map_option written (ser (snd (reset (ex_rfa False (ex_port []))))) = Some [''reset'' @ [CR]] \<and>
   map_option written (ser (snd (zero (ex_rfa False (ex_port []))))) = Some [''zero'' @ [CR]] \<and>
   map_option written (ser (snd (maxspeed (ex_rfa False (ex_port []))))) =
     Some [''speed'' @ [CR]] \<and>
   map_option written (ser (snd (minspeed (ex_rfa False (ex_port []))))) =
     Some [''minspeed'' @ [CR]] \<and>
   map_option written (ser (snd (rampslope (ex_rfa False (ex_port []))))) =
     Some [''rampslope'' @ [CR]] \<and>
   map_option written (ser (snd (maxspeed_set (PInt 100) (ex_rfa False (ex_port []))))) =
     Some [''speed 100'' @ [CR]] \<and>
   ''halt'' \<noteq> ''HALT''"
  by (simp add: halt_def reset_def zero_def maxspeed_def minspeed_def rampslope_def
      maxspeed_set_def query_eval log_msg_def str_eval)

end
